theory Spec2Isabelle
  imports Main "HOL-Library.Word" "HOL-Library.Monad_Syntax"
begin

unbundle bit_operations_syntax

section \<open>Gate controller firmware for the ATmega8535\<close>

text \<open>
  A shallow embedding of \<^verbatim>\<open>src/gate_controller_atmega8535.c\<close>. The firmware's global
  variables, the I/O registers it drives and the EEPROM become fields of one record that
  every routine takes and returns. Everything the firmware does to the outside world
  besides driving port pins (UART text, watchdog service, busy-wait delays, EEPROM
  writes) is appended to a chronological \<open>trace\<close>, so that "no write occurs" or "the
  watchdog is serviced in every iteration" are statements about a value.
\<close>

subsection \<open>Machine types and constants\<close>

type_synonym uint8_t = "8 word"
type_synonym uint16_t = "16 word"
type_synonym uint32_t = "32 word"

text \<open>The \<^verbatim>\<open>#define\<close>s of the source file (lines 27-51).\<close>

abbreviation (input) REGULAR_RESET_HOURS :: uint32_t where "REGULAR_RESET_HOURS \<equiv> 6"
abbreviation (input) MS_PER_HOUR :: uint32_t where "MS_PER_HOUR \<equiv> 3600000"
abbreviation (input) GATE_OPERATION_TIME :: uint16_t where "GATE_OPERATION_TIME \<equiv> 30000"
abbreviation (input) RELAY_SWITCHING_DELAY :: nat where "RELAY_SWITCHING_DELAY \<equiv> 100"
abbreviation (input) BUTTON_DEBOUNCE_DELAY :: nat where "BUTTON_DEBOUNCE_DELAY \<equiv> 250"
abbreviation (input) SHORT_DELAY :: nat where "SHORT_DELAY \<equiv> 10"
abbreviation (input) RESET_DELAY :: uint32_t where "RESET_DELAY \<equiv> 5000"

abbreviation (input) EEPROM_ADDR :: nat where "EEPROM_ADDR \<equiv> 0"
abbreviation (input) EEPROM_RESET_FLAG :: nat where "EEPROM_RESET_FLAG \<equiv> 1"

abbreviation (input) GATE_CLOSED :: uint8_t where "GATE_CLOSED \<equiv> 0"
abbreviation (input) GATE_CLOSING :: uint8_t where "GATE_CLOSING \<equiv> 1"
abbreviation (input) GATE_OPENING :: uint8_t where "GATE_OPENING \<equiv> 2"
abbreviation (input) GATE_OPEN :: uint8_t where "GATE_OPEN \<equiv> 3"

text \<open>
  Bit positions and watchdog prescaler codes come from the device headers
  (\<^verbatim>\<open>avr/io.h\<close>, \<^verbatim>\<open>avr/wdt.h\<close>), which are not part of the repository. The values
  below are those of the ATmega8535; the port pins agree with the pinout table of the
  repository's README (PB0-PB3 relays K1-K4, PD2 button, PD4 and PD5 the two LEDs).
\<close>

abbreviation (input) RELAY_K1 :: nat where "RELAY_K1 \<equiv> 0"
abbreviation (input) RELAY_K2 :: nat where "RELAY_K2 \<equiv> 1"
abbreviation (input) RELAY_K3 :: nat where "RELAY_K3 \<equiv> 2"
abbreviation (input) RELAY_K4 :: nat where "RELAY_K4 \<equiv> 3"
abbreviation (input) BUTTON_PIN :: nat where "BUTTON_PIN \<equiv> 2"
abbreviation (input) LED_OPENING :: nat where "LED_OPENING \<equiv> 4"
abbreviation (input) LED_CLOSING :: nat where "LED_CLOSING \<equiv> 5"

abbreviation (input) PORF :: nat where "PORF \<equiv> 0"

abbreviation (input) WDTO_15MS :: uint8_t where "WDTO_15MS \<equiv> 0"

text \<open>\<^verbatim>\<open>(1 << n)\<close> on an 8-bit register.\<close>

definition bv :: "nat \<Rightarrow> uint8_t" where
  "bv n = push_bit n 1"

abbreviation (input) crlf :: string where "crlf \<equiv> [CHR 0x0D, CHR 0x0A]"

subsection \<open>State\<close>

datatype event =
    Uart string
  | WdtReset
  | WdtEnable uint8_t
  | DelayMs nat
  | EepromWrite nat uint8_t

record state =
  gate_state :: uint8_t
  button_pressed :: uint8_t
  gate_moving :: uint8_t
  idle_timer_ms :: uint32_t
  reset_scheduled :: uint8_t
  PORTB :: uint8_t
  PORTD :: uint8_t
  DDRB :: uint8_t
  DDRD :: uint8_t
  MCUCSR :: uint8_t
  eeprom :: "nat \<Rightarrow> uint8_t"
  trace :: "event list"

text \<open>
  An interrupt handler either returns, leaving a new state, or never returns
  (\<open>None\<close>). \<open>no_irq\<close> is the quantum in which no interrupt is taken.
\<close>

type_synonym handler = "state \<Rightarrow> state option"

abbreviation (input) no_irq :: handler where "no_irq \<equiv> Some"

subsection \<open>Library primitives\<close>

definition emit :: "event \<Rightarrow> state \<Rightarrow> state" where
  "emit e s = s\<lparr>trace := trace s @ [e]\<rparr>"

text \<open>
  \<^verbatim>\<open>uart_tx_string_P\<close> (lines 100-105) sends a flash-resident string one character at
  a time through \<^verbatim>\<open>uart_tx_char\<close>; the UART is a write-only sink that is taken to
  become ready, and the whole string is recorded as one event.
\<close>

definition uart_tx_string_P :: "string \<Rightarrow> state \<Rightarrow> state" where
  "uart_tx_string_P str s = emit (Uart str) s"

definition delay_ms :: "nat \<Rightarrow> state \<Rightarrow> state" where
  "delay_ms n s = emit (DelayMs n) s"

definition wdt_enable :: "uint8_t \<Rightarrow> state \<Rightarrow> state" where
  "wdt_enable t s = emit (WdtEnable t) s"

definition eeprom_read_byte :: "nat \<Rightarrow> state \<Rightarrow> uint8_t" where
  "eeprom_read_byte a s = eeprom s a"

definition eeprom_write_byte :: "nat \<Rightarrow> uint8_t \<Rightarrow> state \<Rightarrow> state" where
  "eeprom_write_byte a v s = emit (EepromWrite a v) (s\<lparr>eeprom := (eeprom s)(a := v)\<rparr>)"

subsection \<open>Watchdog and persistent store (lines 107-171)\<close>

definition reset_watchdog :: "state \<Rightarrow> state" where
  "reset_watchdog s = emit WdtReset s"


definition read_gate_state :: "state \<Rightarrow> uint8_t" where
  "read_gate_state s =
     (let st = eeprom_read_byte EEPROM_ADDR s;
          st = (if st = GATE_CLOSING then GATE_CLOSED else st);
          st = (if st = GATE_OPENING then GATE_OPEN else st)
      in st)"

definition write_gate_state :: "uint8_t \<Rightarrow> state \<Rightarrow> state" where
  "write_gate_state st s =
     (if read_gate_state s \<noteq> st then eeprom_write_byte EEPROM_ADDR st s else s)"


definition schedule_reset :: "state \<Rightarrow> state" where
  "schedule_reset s =
     (if gate_moving s = 0 \<and> reset_scheduled s = 0 then
        (uart_tx_string_P (''Scheduled reset after 6 hours of inactivity'' @ crlf) s)
          \<lparr>reset_scheduled := 1, idle_timer_ms := 0\<rparr>
      else s)"

subsection \<open>Actuator driver (lines 138-143, 173-208)\<close>


definition indicate_opening :: "state \<Rightarrow> state" where
  "indicate_opening s =
     (let s = s\<lparr>PORTD := PORTD s OR bv LED_OPENING\<rparr>
      in s\<lparr>PORTD := PORTD s AND NOT (bv LED_CLOSING)\<rparr>)"

definition indicate_closing :: "state \<Rightarrow> state" where
  "indicate_closing s =
     (let s = s\<lparr>PORTD := PORTD s OR bv LED_CLOSING\<rparr>
      in s\<lparr>PORTD := PORTD s AND NOT (bv LED_OPENING)\<rparr>)"

definition indicate_stop :: "state \<Rightarrow> state" where
  "indicate_stop s = s\<lparr>PORTD := PORTD s AND NOT (bv LED_OPENING OR bv LED_CLOSING)\<rparr>"

definition report_state :: "state \<Rightarrow> state" where
  "report_state s =
     (if gate_state s = GATE_CLOSED then uart_tx_string_P (''State: Gate Closed'' @ crlf) s
      else if gate_state s = GATE_CLOSING then uart_tx_string_P (''State: Gate Closing'' @ crlf) s
      else if gate_state s = GATE_OPENING then uart_tx_string_P (''State: Gate Opening'' @ crlf) s
      else if gate_state s = GATE_OPEN then uart_tx_string_P (''State: Gate Open'' @ crlf) s
      else s)"

definition stop_gate :: "state \<Rightarrow> state" where
  "stop_gate s =
     (let s = s\<lparr>PORTB := PORTB s AND NOT (bv RELAY_K1 OR bv RELAY_K2 OR bv RELAY_K3 OR bv RELAY_K4)\<rparr>;
          s = indicate_stop s
      in s\<lparr>gate_moving := 0\<rparr>)"

subsection \<open>Motion routines (lines 210-258)\<close>

text \<open>
  \<^verbatim>\<open>open_gate\<close> and \<^verbatim>\<open>close_gate\<close> are each split at their \<^verbatim>\<open>for\<close> loop into the
  part before it (\<open>_begin\<close>), the loop (\<open>motion_window\<close>, the same text in both
  routines) and the part after it (\<open>_finish\<close>), so that the state in which the window
  starts can be named.

  The loop variable is a 16-bit unsigned counter stepped by \<^verbatim>\<open>SHORT_DELAY\<close>. The only
  other code that can run during the window is an interrupt handler; \<open>irqs t\<close> is what
  the interrupt system does during the delay quantum that starts \<open>t\<close> milliseconds into
  the window (\<open>no_irq\<close> when no interrupt is taken); an interrupt taken between two
  statements of the loop body is accounted to the adjacent delay, where nearly all of
  the time passes. The loop returns \<open>(False, s)\<close> on the early \<^verbatim>\<open>return\<close> and
  \<open>(True, s)\<close> when the loop condition fails.
\<close>

definition open_gate_begin :: "state \<Rightarrow> state" where
  "open_gate_begin s =
     (let s = stop_gate s;
          s = reset_watchdog s;
          s = delay_ms RELAY_SWITCHING_DELAY s;
          s = s\<lparr>PORTB := PORTB s OR (bv RELAY_K1 OR bv RELAY_K4)\<rparr>;
          s = indicate_opening s;
          s = s\<lparr>gate_state := GATE_OPENING\<rparr>;
          s = report_state s;
          s = s\<lparr>gate_moving := 1\<rparr>;
          s = s\<lparr>idle_timer_ms := 0\<rparr>
      in s\<lparr>reset_scheduled := 0\<rparr>)"

definition close_gate_begin :: "state \<Rightarrow> state" where
  "close_gate_begin s =
     (let s = stop_gate s;
          s = reset_watchdog s;
          s = delay_ms RELAY_SWITCHING_DELAY s;
          s = s\<lparr>PORTB := PORTB s OR (bv RELAY_K2 OR bv RELAY_K3)\<rparr>;
          s = indicate_closing s;
          s = s\<lparr>gate_state := GATE_CLOSING\<rparr>;
          s = report_state s;
          s = s\<lparr>gate_moving := 1\<rparr>;
          s = s\<lparr>idle_timer_ms := 0\<rparr>
      in s\<lparr>reset_scheduled := 0\<rparr>)"

function motion_window :: "(nat \<Rightarrow> handler) \<Rightarrow> uint16_t \<Rightarrow> state \<Rightarrow> (bool \<times> state) option" where
  "motion_window irqs i s =
     (if i < GATE_OPERATION_TIME then
        (case irqs (unat i) (delay_ms SHORT_DELAY s) of
           None \<Rightarrow> None
         | Some s1 \<Rightarrow>
             (let s2 = reset_watchdog s1
              in if gate_moving s2 = 0 then Some (False, s2)
                 else motion_window irqs (i + 10) s2))
      else Some (True, s))"
  by pat_completeness auto

termination
proof (relation "measure (\<lambda>(irqs, i, s). 30000 - unat i)")
  show "wf (measure (\<lambda>(irqs, i, s). 30000 - unat i))" by simp
next
  fix irqs :: "nat \<Rightarrow> handler" and i :: uint16_t and s x :: state
  assume "i < 30000"
  then have lt: "unat i < 30000" by (simp add: word_less_nat_alt)
  then have "unat (i + 10) = unat i + 10" by (simp add: unat_word_ariths)
  with lt show "((irqs, i + 10, x), irqs, i, s) \<in> measure (\<lambda>(irqs, i, s). 30000 - unat i)"
    by simp
qed

definition open_gate_finish :: "state \<Rightarrow> state" where
  "open_gate_finish s =
     (let s = stop_gate s;
          s = s\<lparr>gate_state := GATE_OPEN\<rparr>;
          s = write_gate_state (gate_state s) s;
          s = report_state s
      in uart_tx_string_P (''30 seconds have passed, setting gate to fully open'' @ crlf) s)"

definition close_gate_finish :: "state \<Rightarrow> state" where
  "close_gate_finish s =
     (let s = stop_gate s;
          s = s\<lparr>gate_state := GATE_CLOSED\<rparr>;
          s = write_gate_state (gate_state s) s;
          s = report_state s
      in uart_tx_string_P (''30 seconds have passed, setting gate to fully closed'' @ crlf) s)"

definition open_gate :: "(nat \<Rightarrow> handler) \<Rightarrow> state \<Rightarrow> state option" where
  "open_gate irqs s =
     (case motion_window irqs 0 (open_gate_begin s) of
        None \<Rightarrow> None
      | Some (completed, s1) \<Rightarrow> Some (if completed then open_gate_finish s1 else s1))"

definition close_gate :: "(nat \<Rightarrow> handler) \<Rightarrow> state \<Rightarrow> state option" where
  "close_gate irqs s =
     (case motion_window irqs 0 (close_gate_begin s) of
        None \<Rightarrow> None
      | Some (completed, s1) \<Rightarrow> Some (if completed then close_gate_finish s1 else s1))"

subsection \<open>Gate motion state machine (lines 260-299)\<close>

definition toggle_gate :: "(nat \<Rightarrow> handler) \<Rightarrow> state \<Rightarrow> state option" where
  "toggle_gate irqs s =
     (let s = reset_watchdog s;
          s = s\<lparr>idle_timer_ms := 0\<rparr>;
          s = s\<lparr>reset_scheduled := 0\<rparr>
      in if gate_state s = GATE_CLOSED \<or> gate_state s = GATE_CLOSING then
           open_gate irqs
             (if gate_state s = GATE_CLOSING then
                uart_tx_string_P (''Gate currently closing, changing direction to opening'' @ crlf) s
              else uart_tx_string_P (''Gate currently closed, opening'' @ crlf) s)
         else
           close_gate irqs
             (if gate_state s = GATE_OPENING then
                uart_tx_string_P (''Gate currently opening, changing direction to closing'' @ crlf) s
              else uart_tx_string_P (''Gate currently open, closing'' @ crlf) s))"

definition emergency_stop :: "state \<Rightarrow> state" where
  "emergency_stop s =
     (let s = uart_tx_string_P (''Emergency stop: gate halted immediately'' @ crlf) s;
          s = stop_gate s;
          s = reset_watchdog s;
          s = s\<lparr>idle_timer_ms := 0\<rparr>;
          s = s\<lparr>reset_scheduled := 0\<rparr>;
          s = (if gate_state s = GATE_OPENING then
                 uart_tx_string_P
                   (''Gate movement interrupted while opening. Considering gate open'' @ crlf)
                   (s\<lparr>gate_state := GATE_OPEN\<rparr>)
               else if gate_state s = GATE_CLOSING then
                 uart_tx_string_P
                   (''Gate movement interrupted while closing. Considering gate closed'' @ crlf)
                   (s\<lparr>gate_state := GATE_CLOSED\<rparr>)
               else s);
          s = write_gate_state (gate_state s) s
      in report_state s)"

subsection \<open>Button interrupt (lines 301-321)\<close>

text \<open>
  The handler reads the input register \<^verbatim>\<open>PIND\<close> once in its \<^verbatim>\<open>if\<close> and once per
  evaluation of the \<^verbatim>\<open>while\<close> condition. \<open>pind k\<close> is the value of the \<open>k\<close>-th read
  of one invocation; the button is asserted when bit \<^verbatim>\<open>BUTTON_PIN\<close> reads 0. The
  \<^verbatim>\<open>while\<close> loop runs for as long as the button is held, possibly forever.
\<close>

partial_function (option) wait_release :: "(nat \<Rightarrow> uint8_t) \<Rightarrow> nat \<Rightarrow> state \<Rightarrow> state option" where
  "wait_release pind k s =
     (if pind k AND bv BUTTON_PIN = 0 then
        wait_release pind (Suc k) (reset_watchdog (delay_ms SHORT_DELAY s))
      else Some s)"

definition INT0_vect :: "(nat \<Rightarrow> uint8_t) \<Rightarrow> handler" where
  "INT0_vect pind s =
     (let s = delay_ms BUTTON_DEBOUNCE_DELAY s;
          s = reset_watchdog s
      in if pind 0 AND bv BUTTON_PIN = 0 then
           (case wait_release pind 1 s of
              None \<Rightarrow> None
            | Some s \<Rightarrow>
                (let s = s\<lparr>idle_timer_ms := 0\<rparr>;
                     s = s\<lparr>reset_scheduled := 0\<rparr>
                 in if gate_moving s \<noteq> 0 then Some (emergency_stop s)
                    else Some (s\<lparr>button_pressed := 1\<rparr>)))
         else Some s)"

subsection \<open>Reset supervisor and main loop (lines 125-136, 323-396)\<close>

text \<open>
  \<^verbatim>\<open>perform_controlled_reset\<close> ends in \<^verbatim>\<open>while(1);\<close> and never returns to its caller.
  The function below gives the state in which the processor enters that loop; the caller
  wraps it in \<open>AwaitReset\<close>, from which the main loop makes no further step.
\<close>

datatype 'a outcome = Running 'a | AwaitReset state

definition perform_controlled_reset :: "state \<Rightarrow> state" where
  "perform_controlled_reset s =
     (let s = uart_tx_string_P (''Performing controlled system reset'' @ crlf) s;
          s = (if gate_moving s \<noteq> 0 then stop_gate s else s);
          s = eeprom_write_byte EEPROM_RESET_FLAG 1 s
      in wdt_enable WDTO_15MS s)"

text \<open>The body of \<^verbatim>\<open>if (ms_counter >= 1000)\<close> after the counter is cleared (lines 387-393).\<close>

definition supervisor_check :: "state \<Rightarrow> state outcome" where
  "supervisor_check s =
     (let s = (if idle_timer_ms s \<ge> REGULAR_RESET_HOURS * MS_PER_HOUR
                  \<and> gate_moving s = 0 \<and> reset_scheduled s = 0
               then schedule_reset s else s)
      in if reset_scheduled s \<noteq> 0 \<and> idle_timer_ms s \<ge> RESET_DELAY
         then AwaitReset (perform_controlled_reset s)
         else Running s)"

text \<open>
  One pass through the body of \<^verbatim>\<open>while (1)\<close> in \<^verbatim>\<open>main\<close> (lines 370-394), on the
  globals and the local \<^verbatim>\<open>ms_counter\<close>. \<open>irqs\<close> is the interrupt activity during a
  motion window started in this pass, \<open>irq\<close> that during the 1 ms delay.
\<close>

definition main_iteration ::
  "(nat \<Rightarrow> handler) \<Rightarrow> handler \<Rightarrow> state \<times> uint16_t \<Rightarrow> (state \<times> uint16_t) outcome option" where
  "main_iteration irqs irq c =
     (let (s, ms_counter) = c;
          s = reset_watchdog s
      in case (if button_pressed s \<noteq> 0 then toggle_gate irqs (s\<lparr>button_pressed := 0\<rparr>)
               else Some s) of
           None \<Rightarrow> None
         | Some s \<Rightarrow>
             (case irq (delay_ms 1 s) of
                None \<Rightarrow> None
              | Some s \<Rightarrow>
                  (let ms_counter = ms_counter + 1;
                       s = (if gate_moving s = 0 then s\<lparr>idle_timer_ms := idle_timer_ms s + 1\<rparr>
                            else s)
                   in if ms_counter \<ge> 1000 then
                        (case supervisor_check s of
                           AwaitReset h \<Rightarrow> Some (AwaitReset h)
                         | Running s \<Rightarrow> Some (Running (s, 0)))
                      else Some (Running (s, ms_counter)))))"



text \<open>
  \<^verbatim>\<open>main\<close> never returns. \<open>main_loop n\<close> runs the first \<open>n\<close> passes of its loop,
  where \<open>irqs j\<close> and \<open>irq j\<close> are the interrupt activity of pass \<open>j\<close>, and stops for
  good once the controlled reset has been entered.
\<close>

fun main_loop ::
  "nat \<Rightarrow> (nat \<Rightarrow> nat \<Rightarrow> handler) \<Rightarrow> (nat \<Rightarrow> handler) \<Rightarrow> state \<times> uint16_t
     \<Rightarrow> (state \<times> uint16_t) outcome option" where
  "main_loop 0 irqs irq c = Some (Running c)"
| "main_loop (Suc n) irqs irq c =
     (case main_iteration (irqs 0) (irq 0) c of
        None \<Rightarrow> None
      | Some (AwaitReset h) \<Rightarrow> Some (AwaitReset h)
      | Some (Running c1) \<Rightarrow> main_loop n (\<lambda>j. irqs (Suc j)) (\<lambda>j. irq (Suc j)) c1)"

subsection \<open>Vocabulary of the properties\<close>

text \<open>
  The state in which \<^verbatim>\<open>main\<close> starts after a reset: the C runtime has zeroed the
  globals, the ports are in their reset state, the power-on flag is latched, and the
  EEPROM holds \<open>ee\<close>.
\<close>

definition power_on :: "(nat \<Rightarrow> uint8_t) \<Rightarrow> state" where
  "power_on ee =
     \<lparr>gate_state = 0, button_pressed = 0, gate_moving = 0, idle_timer_ms = 0,
      reset_scheduled = 0, PORTB = 0, PORTD = 0, DDRB = 0, DDRD = 0, MCUCSR = bv PORF,
      eeprom = ee, trace = []\<rparr>"

text \<open>
  Button events, as the values the handler reads from \<^verbatim>\<open>PIND\<close>: in \<open>press\<close>
  the line is still low when it is sampled again after the debounce delay and high at
  the next read; in \<open>bounce\<close> it is high again at the first sample.
\<close>

definition press :: "nat \<Rightarrow> uint8_t" where
  "press k = (if k = 0 then 0 else bv BUTTON_PIN)"

definition bounce :: "nat \<Rightarrow> uint8_t" where
  "bounce k = bv BUTTON_PIN"

text \<open>The button is never released.\<close>

definition held :: "nat \<Rightarrow> uint8_t" where
  "held k = 0"

text \<open>No interrupt is taken in any quantum.\<close>

definition quiet :: "nat \<Rightarrow> handler" where
  "quiet t = no_irq"

text \<open>The button is pressed during the quantum that starts \<open>T\<close> ms into the window.\<close>

definition pressed_at :: "nat \<Rightarrow> nat \<Rightarrow> handler" where
  "pressed_at T t = (if t = T then INT0_vect press else no_irq)"

text \<open>
  The interrupt activity of the firmware during a window: \<open>ev t\<close> is the button event,
  if any, that triggers the handler during the quantum that starts \<open>t\<close> ms into the
  window.
\<close>

definition button :: "(nat \<Rightarrow> (nat \<Rightarrow> uint8_t) option) \<Rightarrow> nat \<Rightarrow> handler" where
  "button ev t = (case ev t of None \<Rightarrow> no_irq | Some pind \<Rightarrow> INT0_vect pind)"

text \<open>A contact bounce in the second quantum and a press in the third.\<close>

definition bounce_then_press :: "nat \<Rightarrow> (nat \<Rightarrow> uint8_t) option" where
  "bounce_then_press t = (if t = 10 then Some bounce else if t = 20 then Some press else None)"

text \<open>
  The state after the first \<open>K\<close> passes of the window's loop body, provided each of
  them returned from its interrupt activity and found MovingFlag set at its check
  (lines 223-225); \<open>None\<close> otherwise.
\<close>

fun passes :: "(nat \<Rightarrow> handler) \<Rightarrow> nat \<Rightarrow> state \<Rightarrow> state option" where
  "passes irqs 0 s = Some s"
| "passes irqs (Suc k) s =
     (case passes irqs k s of
        None \<Rightarrow> None
      | Some s1 \<Rightarrow>
          (case irqs (10 * k) (delay_ms SHORT_DELAY s1) of
             None \<Rightarrow> None
           | Some s2 \<Rightarrow>
               if gate_moving (reset_watchdog s2) = 0 then None else Some (reset_watchdog s2)))"

text \<open>What the handler makes of \<open>press\<close> when it interrupts a moving gate in state \<open>s\<close>.\<close>

definition stopped_by_press :: "state \<Rightarrow> state" where
  "stopped_by_press s =
     emergency_stop
       ((reset_watchdog (delay_ms BUTTON_DEBOUNCE_DELAY s))
          \<lparr>idle_timer_ms := 0, reset_scheduled := 0\<rparr>)"

text \<open>The state after the first three statements of \<^verbatim>\<open>toggle_gate\<close> (lines 261-263).\<close>

definition serviced :: "state \<Rightarrow> state" where
  "serviced s = (reset_watchdog s)\<lparr>idle_timer_ms := 0, reset_scheduled := 0\<rparr>"

text \<open>
  The 1 ms delay and the idle count of one pass of the main loop (lines 377-382), for a
  gate that is not moving.
\<close>

definition waited :: "state \<Rightarrow> state" where
  "waited s = (delay_ms 1 s)\<lparr>idle_timer_ms := idle_timer_ms s + 1\<rparr>"

text \<open>What \<open>n\<close> undisturbed passes of the motion window's loop body append to the trace.\<close>

definition window_quanta :: "nat \<Rightarrow> event list" where
  "window_quanta n = concat (replicate n [DelayMs SHORT_DELAY, WdtReset])"

definition polled :: "nat \<Rightarrow> state \<Rightarrow> state" where
  "polled n s = s\<lparr>trace := trace s @ window_quanta n\<rparr>"

text \<open>
  The state after two passes from \<open>s\<close> under \<open>bounce_then_press\<close>: one undisturbed pass,
  then a pass in which the handler runs on a bounce.
\<close>

definition after_bounce :: "state \<Rightarrow> state" where
  "after_bounce s =
     reset_watchdog (reset_watchdog
       (delay_ms BUTTON_DEBOUNCE_DELAY (delay_ms SHORT_DELAY (polled 1 s))))"

text \<open>All four relay outputs and both indicator outputs are low.\<close>

definition outputs_off :: "state \<Rightarrow> bool" where
  "outputs_off s \<longleftrightarrow>
     \<not> bit (PORTB s) RELAY_K1 \<and> \<not> bit (PORTB s) RELAY_K2 \<and>
     \<not> bit (PORTB s) RELAY_K3 \<and> \<not> bit (PORTB s) RELAY_K4 \<and>
     \<not> bit (PORTD s) LED_OPENING \<and> \<not> bit (PORTD s) LED_CLOSING"

text \<open>
  The gate states announced on the diagnostic channel, in order. \<^verbatim>\<open>report_state\<close> is
  called after every assignment to \<^verbatim>\<open>gate_state\<close> in the motion routines, so this is
  the sequence of states the gate goes through.
\<close>

fun reported :: "event \<Rightarrow> uint8_t list" where
  "reported (Uart m) =
     (if m = ''State: Gate Closed'' @ crlf then [GATE_CLOSED]
      else if m = ''State: Gate Closing'' @ crlf then [GATE_CLOSING]
      else if m = ''State: Gate Opening'' @ crlf then [GATE_OPENING]
      else if m = ''State: Gate Open'' @ crlf then [GATE_OPEN]
      else [])"
| "reported _ = []"

definition state_sequence :: "event list \<Rightarrow> uint8_t list" where
  "state_sequence tr = concat (map reported tr)"

text \<open>The strict alternation that starts from resting state \<open>g\<close>, for \<open>n\<close> toggles.\<close>

fun alternation :: "uint8_t \<Rightarrow> nat \<Rightarrow> uint8_t list" where
  "alternation g 0 = []"
| "alternation g (Suc n) =
     (if g = GATE_CLOSED then [GATE_OPENING, GATE_OPEN] @ alternation GATE_OPEN n
      else [GATE_CLOSING, GATE_CLOSED] @ alternation GATE_CLOSED n)"

definition other_rest :: "uint8_t \<Rightarrow> uint8_t" where
  "other_rest g = (if g = GATE_CLOSED then GATE_OPEN else GATE_CLOSED)"

text \<open>\<open>n\<close> toggles in a row, each with an undisturbed motion window.\<close>

fun toggles :: "nat \<Rightarrow> state \<Rightarrow> state option" where
  "toggles 0 s = Some s"
| "toggles (Suc n) s =
     (case toggle_gate quiet s of None \<Rightarrow> None | Some s1 \<Rightarrow> toggles n s1)"

section \<open>Properties\<close>

lemmas prim_defs = emit_def uart_tx_string_P_def delay_ms_def wdt_enable_def
  eeprom_read_byte_def eeprom_write_byte_def reset_watchdog_def

lemmas store_defs = read_gate_state_def write_gate_state_def

lemmas actuator_defs = stop_gate_def indicate_stop_def indicate_opening_def
  indicate_closing_def report_state_def

subsection \<open>Frame lemmas\<close>

lemma emit_fields [simp]:
  "gate_state (emit e s) = gate_state s"
  "gate_moving (emit e s) = gate_moving s"
  "button_pressed (emit e s) = button_pressed s"
  "idle_timer_ms (emit e s) = idle_timer_ms s"
  "reset_scheduled (emit e s) = reset_scheduled s"
  "PORTB (emit e s) = PORTB s"
  "PORTD (emit e s) = PORTD s"
  "eeprom (emit e s) = eeprom s"
  "trace (emit e s) = trace s @ [e]"
  by (simp_all add: emit_def)

lemmas to_emit = uart_tx_string_P_def delay_ms_def wdt_enable_def reset_watchdog_def

lemma report_state_fields [simp]:
  "gate_state (report_state s) = gate_state s"
  "gate_moving (report_state s) = gate_moving s"
  "button_pressed (report_state s) = button_pressed s"
  "idle_timer_ms (report_state s) = idle_timer_ms s"
  "reset_scheduled (report_state s) = reset_scheduled s"
  "PORTB (report_state s) = PORTB s"
  "PORTD (report_state s) = PORTD s"
  "eeprom (report_state s) = eeprom s"
  by (simp_all add: report_state_def to_emit)

lemma write_gate_state_fields [simp]:
  "gate_state (write_gate_state st s) = gate_state s"
  "gate_moving (write_gate_state st s) = gate_moving s"
  "button_pressed (write_gate_state st s) = button_pressed s"
  "idle_timer_ms (write_gate_state st s) = idle_timer_ms s"
  "reset_scheduled (write_gate_state st s) = reset_scheduled s"
  "PORTB (write_gate_state st s) = PORTB s"
  "PORTD (write_gate_state st s) = PORTD s"
  by (simp_all add: write_gate_state_def eeprom_write_byte_def)


lemma read_after_write:
  "st \<noteq> GATE_CLOSING \<Longrightarrow> st \<noteq> GATE_OPENING \<Longrightarrow> read_gate_state (write_gate_state st s) = st"
  by (simp add: store_defs eeprom_read_byte_def eeprom_write_byte_def Let_def)

lemma raw_after_write:
  "eeprom s EEPROM_ADDR \<noteq> GATE_CLOSING \<Longrightarrow> eeprom s EEPROM_ADDR \<noteq> GATE_OPENING \<Longrightarrow>
     eeprom (write_gate_state st s) EEPROM_ADDR = st"
  by (simp add: store_defs eeprom_read_byte_def eeprom_write_byte_def Let_def)

lemma stop_gate_fields:
  "gate_moving (stop_gate s) = 0"
  "gate_state (stop_gate s) = gate_state s"
  "button_pressed (stop_gate s) = button_pressed s"
  "idle_timer_ms (stop_gate s) = idle_timer_ms s"
  "reset_scheduled (stop_gate s) = reset_scheduled s"
  "eeprom (stop_gate s) = eeprom s"
  "trace (stop_gate s) = trace s"
  by (simp_all add: actuator_defs Let_def)

lemma stop_gate_outputs_off: "outputs_off (stop_gate s)"
  by (simp add: outputs_off_def actuator_defs Let_def bv_def bit_simps)

lemma read_gate_state_frame [simp]:
  "read_gate_state (emit e s) = read_gate_state s"
  "read_gate_state (report_state s) = read_gate_state s"
  "read_gate_state (stop_gate s) = read_gate_state s"
  by (simp_all add: read_gate_state_def eeprom_read_byte_def stop_gate_fields)

lemma outputs_off_cong:
  "PORTB s = PORTB s' \<Longrightarrow> PORTD s = PORTD s' \<Longrightarrow> outputs_off s = outputs_off s'"
  by (simp add: outputs_off_def)

lemma open_gate_begin_fields:
  "gate_state (open_gate_begin s) = GATE_OPENING"
  "gate_moving (open_gate_begin s) = 1"
  "idle_timer_ms (open_gate_begin s) = 0"
  "reset_scheduled (open_gate_begin s) = 0"
  "button_pressed (open_gate_begin s) = button_pressed s"
  "eeprom (open_gate_begin s) = eeprom s"
  "trace (open_gate_begin s) =
     trace s @ [WdtReset, DelayMs RELAY_SWITCHING_DELAY, Uart (''State: Gate Opening'' @ crlf)]"
  by (simp_all add: open_gate_begin_def actuator_defs prim_defs Let_def)

lemma open_gate_begin_outputs:
  "bit (PORTB (open_gate_begin s)) RELAY_K1" "bit (PORTB (open_gate_begin s)) RELAY_K4"
  "\<not> bit (PORTB (open_gate_begin s)) RELAY_K2" "\<not> bit (PORTB (open_gate_begin s)) RELAY_K3"
  "bit (PORTD (open_gate_begin s)) LED_OPENING" "\<not> bit (PORTD (open_gate_begin s)) LED_CLOSING"
  by (simp_all add: open_gate_begin_def actuator_defs prim_defs Let_def bv_def bit_simps)

lemma close_gate_begin_fields:
  "gate_state (close_gate_begin s) = GATE_CLOSING"
  "gate_moving (close_gate_begin s) = 1"
  "idle_timer_ms (close_gate_begin s) = 0"
  "reset_scheduled (close_gate_begin s) = 0"
  "button_pressed (close_gate_begin s) = button_pressed s"
  "eeprom (close_gate_begin s) = eeprom s"
  "trace (close_gate_begin s) =
     trace s @ [WdtReset, DelayMs RELAY_SWITCHING_DELAY, Uart (''State: Gate Closing'' @ crlf)]"
  by (simp_all add: close_gate_begin_def actuator_defs prim_defs Let_def)

lemma close_gate_begin_outputs:
  "bit (PORTB (close_gate_begin s)) RELAY_K2" "bit (PORTB (close_gate_begin s)) RELAY_K3"
  "\<not> bit (PORTB (close_gate_begin s)) RELAY_K1" "\<not> bit (PORTB (close_gate_begin s)) RELAY_K4"
  "bit (PORTD (close_gate_begin s)) LED_CLOSING" "\<not> bit (PORTD (close_gate_begin s)) LED_OPENING"
  by (simp_all add: close_gate_begin_def actuator_defs prim_defs Let_def bv_def bit_simps)

lemma open_gate_finish_fields:
  "gate_state (open_gate_finish s) = GATE_OPEN"
  "gate_moving (open_gate_finish s) = 0"
  "idle_timer_ms (open_gate_finish s) = idle_timer_ms s"
  "reset_scheduled (open_gate_finish s) = reset_scheduled s"
  "button_pressed (open_gate_finish s) = button_pressed s"
  "read_gate_state (open_gate_finish s) = GATE_OPEN"
  "eeprom s EEPROM_ADDR \<noteq> GATE_OPENING \<Longrightarrow> eeprom (open_gate_finish s) EEPROM_ADDR = GATE_OPEN"
  "outputs_off (open_gate_finish s)"
  by (simp_all add: open_gate_finish_def actuator_defs store_defs prim_defs Let_def
      outputs_off_def bv_def bit_simps)

lemma close_gate_finish_fields:
  "gate_state (close_gate_finish s) = GATE_CLOSED"
  "gate_moving (close_gate_finish s) = 0"
  "idle_timer_ms (close_gate_finish s) = idle_timer_ms s"
  "reset_scheduled (close_gate_finish s) = reset_scheduled s"
  "button_pressed (close_gate_finish s) = button_pressed s"
  "read_gate_state (close_gate_finish s) = GATE_CLOSED"
  "eeprom s EEPROM_ADDR \<noteq> GATE_CLOSING \<Longrightarrow> eeprom (close_gate_finish s) EEPROM_ADDR = GATE_CLOSED"
  "outputs_off (close_gate_finish s)"
  by (simp_all add: close_gate_finish_def actuator_defs store_defs prim_defs Let_def
      outputs_off_def bv_def bit_simps)

subsection \<open>The motion window\<close>

lemma window_step:
  "i < 30000 \<Longrightarrow> motion_window irqs i s =
     (case irqs (unat i) (delay_ms SHORT_DELAY s) of
           None \<Rightarrow> None
         | Some s1 \<Rightarrow>
             (let s2 = reset_watchdog s1
              in if gate_moving s2 = 0 then Some (False, s2)
                 else motion_window irqs (i + 10) s2))"
  by simp

lemma window_exit: "\<not> i < 30000 \<Longrightarrow> motion_window irqs i s = Some (True, s)"
  by simp

declare motion_window.simps [simp del]

lemma polled_simps [simp]:
  "gate_state (polled n s) = gate_state s"
  "gate_moving (polled n s) = gate_moving s"
  "button_pressed (polled n s) = button_pressed s"
  "idle_timer_ms (polled n s) = idle_timer_ms s"
  "reset_scheduled (polled n s) = reset_scheduled s"
  "PORTB (polled n s) = PORTB s"
  "PORTD (polled n s) = PORTD s"
  "eeprom (polled n s) = eeprom s"
  "trace (polled n s) = trace s @ window_quanta n"
  by (simp_all add: polled_def)

lemma polled_Suc: "polled (Suc n) s = polled n (reset_watchdog (delay_ms SHORT_DELAY s))"
  by (simp add: polled_def window_quanta_def prim_defs)

lemma polled_0: "polled 0 s = s"
  by (simp add: polled_def window_quanta_def)

lemma window_quiet_prefix:
  fixes i :: uint16_t
  assumes "\<forall>k<n. irqs (unat i + 10 * k) = no_irq"
    and "unat i + 10 * n \<le> 30000"
    and "gate_moving s \<noteq> 0"
  shows "motion_window irqs i s = motion_window irqs (i + 10 * of_nat n) (polled n s)"
  using assms
proof (induction n arbitrary: i s)
  case 0
  then show ?case by (simp add: polled_0)
next
  case (Suc n)
  from Suc.prems(2) have lt: "unat i < 30000" by simp
  then have ilt: "i < 30000" by (simp add: word_less_nat_alt)
  from lt have step: "unat (i + 10) = unat i + 10" by (simp add: unat_word_ariths)
  from Suc.prems(1) have here: "irqs (unat i) = no_irq" by (metis add.right_neutral mult_0_right zero_less_Suc)
  let ?s2 = "reset_watchdog (delay_ms SHORT_DELAY s)"
  have mv: "gate_moving ?s2 \<noteq> 0" using Suc.prems(3) by (simp add: prim_defs)
  have one: "motion_window irqs i s = motion_window irqs (i + 10) ?s2"
    using mv by (simp add: window_step [OF ilt] here Let_def)
  have rest: "\<forall>k<n. irqs (unat (i + 10) + 10 * k) = no_irq"
  proof (intro allI impI)
    fix k assume "k < n"
    then have "Suc k < Suc n" by simp
    with Suc.prems(1) have "irqs (unat i + 10 * Suc k) = no_irq" by blast
    then show "irqs (unat (i + 10) + 10 * k) = no_irq" by (simp add: step add.assoc)
  qed
  have bound: "unat (i + 10) + 10 * n \<le> 30000" using Suc.prems(2) by (simp add: step)
  have "motion_window irqs (i + 10) ?s2
          = motion_window irqs (i + 10 + 10 * of_nat n) (polled n ?s2)"
    by (rule Suc.IH [OF rest bound mv])
  with one show ?case by (simp add: polled_Suc algebra_simps)
qed

lemma window_completes:
  assumes "\<forall>k<3000. irqs (10 * k) = no_irq" and "gate_moving s \<noteq> 0"
  shows "motion_window irqs 0 s = Some (True, polled 3000 s)"
proof -
  have "motion_window irqs 0 s = motion_window irqs (0 + 10 * of_nat 3000) (polled 3000 s)"
    using assms by (intro window_quiet_prefix) simp_all
  then show ?thesis by (simp add: window_exit)
qed

lemma window_interrupted:
  assumes "K < 3000" and "\<forall>k<K. irqs (10 * k) = no_irq" and "gate_moving s \<noteq> 0"
    and "irqs (10 * K) (delay_ms SHORT_DELAY (polled K s)) = Some s'"
    and "gate_moving s' = 0"
  shows "motion_window irqs 0 s = Some (False, reset_watchdog s')"
proof -
  have pre: "motion_window irqs 0 s = motion_window irqs (0 + 10 * of_nat K) (polled K s)"
    using assms by (intro window_quiet_prefix) simp_all
  have un: "unat (10 * of_nat K :: uint16_t) = 10 * K"
    using assms(1) by (simp add: unat_word_ariths unat_of_nat)
  then have lt: "(10 * of_nat K :: uint16_t) < 30000"
    using assms(1) by (simp add: word_less_nat_alt)
  have "gate_moving (reset_watchdog s') = 0" using assms(5) by (simp add: prim_defs)
  then show ?thesis
    using assms(4) by (simp add: pre window_step [OF lt] un Let_def)
qed

subsection \<open>Persistent store\<close>

text \<open>
  C5. Round trip through the persistent store. Whatever the store held before, writing
  a resting code (Closed = 0, Open = 3) and reading it back gives that code, and writing
  a transient code (Closing = 1, Opening = 2) and reading it back gives the resting
  state it was heading toward. This holds for a write through \<^verbatim>\<open>write_gate_state\<close>
  and for a write of the raw byte.
\<close>

theorem gate_state_round_trip:
  "read_gate_state (write_gate_state GATE_CLOSED s) = GATE_CLOSED \<and>
   read_gate_state (write_gate_state GATE_OPEN s) = GATE_OPEN \<and>
   read_gate_state (write_gate_state GATE_CLOSING s) = GATE_CLOSED \<and>
   read_gate_state (write_gate_state GATE_OPENING s) = GATE_OPEN \<and>
   read_gate_state (eeprom_write_byte EEPROM_ADDR GATE_CLOSED s) = GATE_CLOSED \<and>
   read_gate_state (eeprom_write_byte EEPROM_ADDR GATE_OPEN s) = GATE_OPEN \<and>
   read_gate_state (eeprom_write_byte EEPROM_ADDR GATE_CLOSING s) = GATE_CLOSED \<and>
   read_gate_state (eeprom_write_byte EEPROM_ADDR GATE_OPENING s) = GATE_OPEN"
  by (simp add: store_defs prim_defs Let_def)

text \<open>
  C6, as stated: \<^verbatim>\<open>write_gate_state(s)\<close> writes exactly when the stored byte differs
  from \<open>s\<close>. The guard of the routine compares \<open>s\<close> with \<^verbatim>\<open>read_gate_state()\<close>, the
  stored byte after normalisation, so the statement fails in both directions when the
  cell holds a transient code: with Closing stored, writing Closed leaves the cell alone
  although the byte differs, and writing Closing writes although the byte is equal.
\<close>

theorem write_gate_state_counterexample:
  "eeprom_read_byte EEPROM_ADDR (power_on (\<lambda>a. GATE_CLOSING)) \<noteq> GATE_CLOSED \<and>
   write_gate_state GATE_CLOSED (power_on (\<lambda>a. GATE_CLOSING)) = power_on (\<lambda>a. GATE_CLOSING) \<and>
   eeprom_read_byte EEPROM_ADDR (power_on (\<lambda>a. GATE_CLOSING)) = GATE_CLOSING \<and>
   trace (write_gate_state GATE_CLOSING (power_on (\<lambda>a. GATE_CLOSING)))
     = [EepromWrite EEPROM_ADDR GATE_CLOSING]"
  by (simp add: store_defs prim_defs Let_def power_on_def)

text \<open>
  C6, amended: \<^verbatim>\<open>write_gate_state(s)\<close> writes \<open>s\<close> to the gate-state cell if and only
  if the value \<^verbatim>\<open>read_gate_state()\<close> returns for the cell differs from \<open>s\<close>; when they
  are equal the state, and with it the storage and the trace of writes, is unchanged.
  For a cell that holds neither transient code that value is the stored byte itself.
\<close>

theorem write_gate_state_guard:
  "(read_gate_state s \<noteq> st \<longrightarrow>
      write_gate_state st s = eeprom_write_byte EEPROM_ADDR st s \<and>
      eeprom (write_gate_state st s) = (eeprom s)(EEPROM_ADDR := st) \<and>
      trace (write_gate_state st s) = trace s @ [EepromWrite EEPROM_ADDR st]) \<and>
   (read_gate_state s = st \<longrightarrow> write_gate_state st s = s) \<and>
   (eeprom s EEPROM_ADDR \<noteq> GATE_CLOSING \<and> eeprom s EEPROM_ADDR \<noteq> GATE_OPENING \<longrightarrow>
      read_gate_state s = eeprom s EEPROM_ADDR)"
  by (simp add: store_defs prim_defs Let_def)

theorem write_gate_state_guard_witness:
  "read_gate_state (power_on (\<lambda>a. 0xFF)) \<noteq> GATE_OPEN \<and>
   trace (write_gate_state GATE_OPEN (power_on (\<lambda>a. 0xFF))) = [EepromWrite EEPROM_ADDR GATE_OPEN] \<and>
   read_gate_state (power_on (\<lambda>a. GATE_OPENING)) = GATE_OPEN \<and>
   write_gate_state GATE_OPEN (power_on (\<lambda>a. GATE_OPENING)) = power_on (\<lambda>a. GATE_OPENING) \<and>
   eeprom (power_on (\<lambda>a. 0xFF)) EEPROM_ADDR \<noteq> GATE_CLOSING \<and>
   eeprom (power_on (\<lambda>a. 0xFF)) EEPROM_ADDR \<noteq> GATE_OPENING \<and>
   read_gate_state (power_on (\<lambda>a. 0xFF)) = 0xFF"
  using write_gate_state_guard [of "power_on (\<lambda>a. 0xFF)" GATE_OPEN]
    write_gate_state_guard [of "power_on (\<lambda>a. GATE_OPENING)" GATE_OPEN]
  by (simp add: power_on_def store_defs prim_defs)

subsection \<open>Emergency stop\<close>

lemma emergency_stop_fields:
  "gate_moving (emergency_stop s) = 0"
  "idle_timer_ms (emergency_stop s) = 0"
  "reset_scheduled (emergency_stop s) = 0"
  "button_pressed (emergency_stop s) = button_pressed s"
  "gate_state (emergency_stop s) =
     (if gate_state s = GATE_OPENING then GATE_OPEN
      else if gate_state s = GATE_CLOSING then GATE_CLOSED else gate_state s)"
  by (simp_all add: emergency_stop_def Let_def to_emit stop_gate_fields)

lemma emergency_stop_ports:
  "PORTB (emergency_stop s) = PORTB (stop_gate s)"
  "PORTD (emergency_stop s) = PORTD (stop_gate s)"
  by (simp_all add: emergency_stop_def Let_def to_emit stop_gate_def indicate_stop_def)

lemma emergency_stop_outputs_off: "outputs_off (emergency_stop s)"
  using stop_gate_outputs_off [of s] outputs_off_cong [OF emergency_stop_ports]
  by simp

lemma emergency_stop_persisted:
  "read_gate_state (emergency_stop s) = gate_state (emergency_stop s)"
proof -
  consider "gate_state s = GATE_OPENING" | "gate_state s = GATE_CLOSING"
    | "gate_state s \<noteq> GATE_OPENING" "gate_state s \<noteq> GATE_CLOSING" by blast
  then show ?thesis
  proof cases
    case 1
    then show ?thesis
      by (simp add: emergency_stop_def Let_def to_emit stop_gate_fields read_after_write)
  next
    case 2
    then show ?thesis
      by (simp add: emergency_stop_def Let_def to_emit stop_gate_fields read_after_write)
  next
    case 3
    then show ?thesis
      by (simp add: emergency_stop_def Let_def to_emit stop_gate_fields read_after_write)
  qed
qed

lemma emergency_stop_raw:
  assumes "eeprom s EEPROM_ADDR \<noteq> GATE_CLOSING" "eeprom s EEPROM_ADDR \<noteq> GATE_OPENING"
  shows "eeprom (emergency_stop s) EEPROM_ADDR = gate_state (emergency_stop s)"
  using assms
  by (simp add: emergency_stop_def Let_def to_emit stop_gate_fields raw_after_write)

text \<open>
  C3. When \<^verbatim>\<open>emergency_stop\<close> is invoked with MovingFlag set, all four relay outputs
  and both indicators are low afterwards, MovingFlag is false, IdleTimer and
  ResetScheduledFlag are zero, an Opening gate has become Open and a Closing gate
  Closed, and the resolved state is persisted: the store reads back as the resolved
  state, and the stored byte is the resolved code itself unless the cell held a
  transient code before (which the firmware never writes).
\<close>

theorem emergency_stop_resolves:
  assumes "gate_moving s \<noteq> 0"
  shows "outputs_off (emergency_stop s) \<and>
         gate_moving (emergency_stop s) = 0 \<and>
         idle_timer_ms (emergency_stop s) = 0 \<and>
         reset_scheduled (emergency_stop s) = 0 \<and>
         (gate_state s = GATE_OPENING \<longrightarrow> gate_state (emergency_stop s) = GATE_OPEN) \<and>
         (gate_state s = GATE_CLOSING \<longrightarrow> gate_state (emergency_stop s) = GATE_CLOSED) \<and>
         read_gate_state (emergency_stop s) = gate_state (emergency_stop s) \<and>
         (eeprom s EEPROM_ADDR \<noteq> GATE_CLOSING \<and> eeprom s EEPROM_ADDR \<noteq> GATE_OPENING \<longrightarrow>
            eeprom (emergency_stop s) EEPROM_ADDR = gate_state (emergency_stop s))"
  using emergency_stop_outputs_off [of s] emergency_stop_persisted [of s] emergency_stop_raw [of s]
  by (simp add: emergency_stop_fields)

theorem emergency_stop_resolves_witness:
  "gate_moving (open_gate_begin (power_on (\<lambda>a. GATE_CLOSED))) \<noteq> 0 \<and>
   gate_state (open_gate_begin (power_on (\<lambda>a. GATE_CLOSED))) = GATE_OPENING \<and>
   eeprom (open_gate_begin (power_on (\<lambda>a. GATE_CLOSED))) EEPROM_ADDR \<noteq> GATE_CLOSING \<and>
   eeprom (open_gate_begin (power_on (\<lambda>a. GATE_CLOSED))) EEPROM_ADDR \<noteq> GATE_OPENING \<and>
   outputs_off (emergency_stop (open_gate_begin (power_on (\<lambda>a. GATE_CLOSED)))) \<and>
   gate_moving (emergency_stop (open_gate_begin (power_on (\<lambda>a. GATE_CLOSED)))) = 0 \<and>
   gate_state (emergency_stop (open_gate_begin (power_on (\<lambda>a. GATE_CLOSED)))) = GATE_OPEN \<and>
   read_gate_state (emergency_stop (open_gate_begin (power_on (\<lambda>a. GATE_CLOSED)))) = GATE_OPEN \<and>
   eeprom (emergency_stop (open_gate_begin (power_on (\<lambda>a. GATE_CLOSED)))) EEPROM_ADDR = GATE_OPEN"
  using emergency_stop_resolves [of "open_gate_begin (power_on (\<lambda>a. GATE_CLOSED))"]
  by (simp add: open_gate_begin_fields power_on_def)

subsection \<open>The interrupt handler\<close>

lemma wait_release_high:
  "pind k AND bv BUTTON_PIN \<noteq> 0 \<Longrightarrow> wait_release pind k s = Some s"
  by (subst wait_release.simps) simp

lemma wait_release_low:
  "pind k AND bv BUTTON_PIN = 0 \<Longrightarrow>
     wait_release pind k s = wait_release pind (Suc k) (reset_watchdog (delay_ms SHORT_DELAY s))"
  by (subst wait_release.simps) simp

lemma wait_release_returns:
  assumes "k \<le> n" and "pind n AND bv BUTTON_PIN \<noteq> 0"
  shows "\<exists>j. k + j \<le> n \<and> wait_release pind k s = Some (polled j s)"
  using assms
proof (induction "n - k" arbitrary: k s)
  case 0
  then have "k = n" by simp
  with "0.prems" have "wait_release pind k s = Some (polled 0 s)"
    by (simp add: wait_release_high polled_0)
  then show ?case by (metis add.right_neutral "0.prems"(1))
next
  case (Suc d)
  show ?case
  proof (cases "pind k AND bv BUTTON_PIN = 0")
    case False
    then have "wait_release pind k s = Some (polled 0 s)"
      by (simp add: wait_release_high polled_0)
    then show ?thesis by (metis add.right_neutral Suc.prems(1))
  next
    case True
    from Suc.hyps(2) have d: "d = n - Suc k" and le: "Suc k \<le> n" by simp_all
    from Suc.hyps(1) [OF d le Suc.prems(2)]
    obtain j where j: "Suc k + j \<le> n"
      and w: "wait_release pind (Suc k) (reset_watchdog (delay_ms SHORT_DELAY s))
                = Some (polled j (reset_watchdog (delay_ms SHORT_DELAY s)))"
      by blast
    have "wait_release pind k s = Some (polled (Suc j) s)"
      using True by (simp add: wait_release_low [of pind k] w polled_Suc)
    moreover from j have "k + Suc j \<le> n" by simp
    ultimately show ?thesis by blast
  qed
qed

lemma INT0_vect_no_press:
  assumes "pind 0 AND bv BUTTON_PIN \<noteq> 0"
  shows "INT0_vect pind s = Some (reset_watchdog (delay_ms BUTTON_DEBOUNCE_DELAY s))"
  using assms by (simp add: INT0_vect_def Let_def)

lemma INT0_vect_press:
  assumes "pind 0 AND bv BUTTON_PIN = 0" and "0 < n" and "pind n AND bv BUTTON_PIN \<noteq> 0"
  shows "\<exists>j<n. INT0_vect pind s =
           Some (if gate_moving s \<noteq> 0
                 then emergency_stop
                        ((polled j (reset_watchdog (delay_ms BUTTON_DEBOUNCE_DELAY s)))
                           \<lparr>idle_timer_ms := 0, reset_scheduled := 0\<rparr>)
                 else (polled j (reset_watchdog (delay_ms BUTTON_DEBOUNCE_DELAY s)))
                        \<lparr>idle_timer_ms := 0, reset_scheduled := 0, button_pressed := 1\<rparr>)"
proof -
  from assms(2) have "1 \<le> n" by simp
  with wait_release_returns [of 1 n pind "reset_watchdog (delay_ms BUTTON_DEBOUNCE_DELAY s)"]
    assms(3)
  obtain j where j: "1 + j \<le> n"
    and w: "wait_release pind 1 (reset_watchdog (delay_ms BUTTON_DEBOUNCE_DELAY s))
              = Some (polled j (reset_watchdog (delay_ms BUTTON_DEBOUNCE_DELAY s)))"
    by blast
  have "INT0_vect pind s =
           Some (if gate_moving s \<noteq> 0
                 then emergency_stop
                        ((polled j (reset_watchdog (delay_ms BUTTON_DEBOUNCE_DELAY s)))
                           \<lparr>idle_timer_ms := 0, reset_scheduled := 0\<rparr>)
                 else (polled j (reset_watchdog (delay_ms BUTTON_DEBOUNCE_DELAY s)))
                        \<lparr>idle_timer_ms := 0, reset_scheduled := 0, button_pressed := 1\<rparr>)"
    using assms(1) w by (simp add: INT0_vect_def Let_def to_emit)
  moreover from j have "j < n" by simp
  ultimately show ?thesis by blast
qed

lemma INT0_vect_press_moving:
  "gate_moving s \<noteq> 0 \<Longrightarrow> INT0_vect press s = Some (stopped_by_press s)"
  by (simp add: INT0_vect_def stopped_by_press_def press_def bv_def wait_release_high Let_def to_emit)

lemma wait_release_Some:
  assumes "wait_release pind k s = Some s'"
  shows "\<exists>j. pind (k + j) AND bv BUTTON_PIN \<noteq> 0 \<and> s' = polled j s"
proof (rule wait_release.raw_induct
    [where P = "\<lambda>pind k s s'. \<exists>j. pind (k + j) AND bv BUTTON_PIN \<noteq> 0 \<and> s' = polled j s",
      OF _ assms], goal_cases)
  case (1 f pind k s y)
  show ?case
  proof (cases "pind k AND bv BUTTON_PIN = 0")
    case False
    with 1(2) have "y = polled 0 s" by (simp add: polled_0)
    with False show ?thesis by (metis add.right_neutral)
  next
    case True
    with 1(2) have "f pind (Suc k) (reset_watchdog (delay_ms SHORT_DELAY s)) = Some y" by simp
    from 1(1) [OF this] obtain j where
      "pind (Suc k + j) AND bv BUTTON_PIN \<noteq> 0"
      "y = polled j (reset_watchdog (delay_ms SHORT_DELAY s))"
      by blast
    then have "pind (k + Suc j) AND bv BUTTON_PIN \<noteq> 0" "y = polled (Suc j) s"
      by (simp_all add: polled_Suc)
    then show ?thesis by blast
  qed
qed

lemma wait_release_forever:
  assumes "\<forall>n\<ge>k. pind n AND bv BUTTON_PIN = 0"
  shows "wait_release pind k s = None"
proof (cases "wait_release pind k s")
  case None
  then show ?thesis .
next
  case (Some s')
  from wait_release_Some [OF this] obtain j where "pind (k + j) AND bv BUTTON_PIN \<noteq> 0"
    by blast
  with assms show ?thesis by simp
qed

lemma INT0_vect_held_forever:
  assumes "\<forall>n. pind n AND bv BUTTON_PIN = 0"
  shows "INT0_vect pind s = None"
proof -
  have "wait_release pind 1 (reset_watchdog (delay_ms BUTTON_DEBOUNCE_DELAY s)) = None"
    by (rule wait_release_forever) (simp add: assms)
  then show ?thesis using assms by (simp add: INT0_vect_def Let_def)
qed

lemma report_state_trace: "\<exists>r. trace (report_state s) = trace s @ r"
  by (simp add: report_state_def to_emit)

lemma write_gate_state_trace: "\<exists>r. trace (write_gate_state st s) = trace s @ r"
  by (simp add: write_gate_state_def eeprom_write_byte_def)

lemma emergency_stop_trace:
  "\<exists>rest. trace (emergency_stop s) = trace s @ rest"
proof -
  define s4 where "s4 =
    (reset_watchdog (stop_gate
       (uart_tx_string_P (''Emergency stop: gate halted immediately'' @ crlf) s)))
      \<lparr>idle_timer_ms := 0, reset_scheduled := 0\<rparr>"
  define s5 where "s5 =
    (if gate_state s4 = GATE_OPENING then
       uart_tx_string_P
         (''Gate movement interrupted while opening. Considering gate open'' @ crlf)
         (s4\<lparr>gate_state := GATE_OPEN\<rparr>)
     else if gate_state s4 = GATE_CLOSING then
       uart_tx_string_P
         (''Gate movement interrupted while closing. Considering gate closed'' @ crlf)
         (s4\<lparr>gate_state := GATE_CLOSED\<rparr>)
     else s4)"
  have e: "emergency_stop s = report_state (write_gate_state (gate_state s5) s5)"
    unfolding emergency_stop_def Let_def s4_def s5_def by simp
  have "\<exists>r. trace s4 = trace s @ r" by (simp add: s4_def to_emit stop_gate_fields)
  moreover have "\<exists>r. trace s5 = trace s4 @ r" by (simp add: s5_def to_emit)
  moreover note write_gate_state_trace [of "gate_state s5" s5]
    report_state_trace [of "write_gate_state (gate_state s5) s5"]
  ultimately show ?thesis unfolding e by (metis append.assoc)
qed

lemma INT0_vect_service_delayed:
  assumes "INT0_vect pind s = Some s'"
  shows "\<exists>rest. trace s' = trace s @ [DelayMs BUTTON_DEBOUNCE_DELAY, WdtReset] @ rest"
proof (cases "pind 0 AND bv BUTTON_PIN = 0")
  case False
  with assms have "s' = reset_watchdog (delay_ms BUTTON_DEBOUNCE_DELAY s)"
    by (simp add: INT0_vect_def Let_def)
  then show ?thesis by (simp add: to_emit)
next
  case True
  let ?d = "reset_watchdog (delay_ms BUTTON_DEBOUNCE_DELAY s)"
  from True assms obtain w where w: "wait_release pind 1 ?d = Some w"
    by (auto simp: INT0_vect_def Let_def split: option.splits)
  from wait_release_Some [OF w] obtain j where j: "w = polled j ?d" by blast
  let ?z = "w\<lparr>idle_timer_ms := 0, reset_scheduled := 0\<rparr>"
  have tz: "trace ?z = trace s @ [DelayMs BUTTON_DEBOUNCE_DELAY, WdtReset] @ window_quanta j"
    by (simp add: j to_emit)
  from True assms w have "s' = emergency_stop ?z \<or> s' = ?z\<lparr>button_pressed := 1\<rparr>"
    by (auto simp: INT0_vect_def Let_def split: if_splits)
  then show ?thesis
  proof
    assume "s' = emergency_stop ?z"
    with emergency_stop_trace [of ?z] tz show ?thesis by auto
  next
    assume "s' = ?z\<lparr>button_pressed := 1\<rparr>"
    with tz show ?thesis by simp
  qed
qed

subsection \<open>Motion routines\<close>

lemma open_gate_completes:
  assumes "\<forall>k<3000. irqs (10 * k) = no_irq"
  shows "open_gate irqs s = Some (open_gate_finish (polled 3000 (open_gate_begin s)))"
  using window_completes [OF assms, of "open_gate_begin s"]
  by (simp add: open_gate_def open_gate_begin_fields)

lemma close_gate_completes:
  assumes "\<forall>k<3000. irqs (10 * k) = no_irq"
  shows "close_gate irqs s = Some (close_gate_finish (polled 3000 (close_gate_begin s)))"
  using window_completes [OF assms, of "close_gate_begin s"]
  by (simp add: close_gate_def close_gate_begin_fields)

lemma open_gate_interrupted:
  assumes "K < 3000" and "\<forall>k<K. irqs (10 * k) = no_irq"
    and "irqs (10 * K) (delay_ms SHORT_DELAY (polled K (open_gate_begin s))) = Some s'"
    and "gate_moving s' = 0"
  shows "open_gate irqs s = Some (reset_watchdog s')"
  using window_interrupted [OF assms(1,2) _ assms(3,4)]
  by (simp add: open_gate_def open_gate_begin_fields)

lemma close_gate_interrupted:
  assumes "K < 3000" and "\<forall>k<K. irqs (10 * k) = no_irq"
    and "irqs (10 * K) (delay_ms SHORT_DELAY (polled K (close_gate_begin s))) = Some s'"
    and "gate_moving s' = 0"
  shows "close_gate irqs s = Some (reset_watchdog s')"
  using window_interrupted [OF assms(1,2) _ assms(3,4)]
  by (simp add: close_gate_def close_gate_begin_fields)

lemma open_gate_finalises:
  "motion_window irqs 0 (open_gate_begin s) = Some (True, s1) \<Longrightarrow>
     open_gate irqs s = Some (open_gate_finish s1)"
  by (simp add: open_gate_def)

lemma close_gate_finalises:
  "motion_window irqs 0 (close_gate_begin s) = Some (True, s1) \<Longrightarrow>
     close_gate irqs s = Some (close_gate_finish s1)"
  by (simp add: close_gate_def)

lemma window_index:
  assumes "K \<le> 3000"
  shows "unat (10 * of_nat K :: uint16_t) = 10 * K"
  using assms by (simp add: unat_word_ariths unat_of_nat)

lemma passes_SucE:
  assumes "passes irqs (Suc K) s = Some t"
  obtains sK s2 where "passes irqs K s = Some sK"
    and "irqs (10 * K) (delay_ms SHORT_DELAY sK) = Some s2"
    and "gate_moving (reset_watchdog s2) \<noteq> 0" and "t = reset_watchdog s2"
  using assms by (auto split: option.splits if_splits)

lemma passes_window:
  assumes "K \<le> 3000" and "passes irqs K s = Some sK"
  shows "motion_window irqs 0 s = motion_window irqs (10 * of_nat K) sK"
  using assms
proof (induction K arbitrary: sK)
  case 0
  then show ?case by simp
next
  case (Suc K)
  from Suc.prems(2) obtain sJ s2 where
    p: "passes irqs K s = Some sJ" and i: "irqs (10 * K) (delay_ms SHORT_DELAY sJ) = Some s2"
    and m: "gate_moving (reset_watchdog s2) \<noteq> 0" and t: "sK = reset_watchdog s2"
    by (rule passes_SucE)
  from Suc.prems(1) have K: "K \<le> 3000" "K < 3000" by simp_all
  have un: "unat (10 * of_nat K :: uint16_t) = 10 * K" by (rule window_index [OF K(1)])
  then have lt: "(10 * of_nat K :: uint16_t) < 30000" using K(2) by (simp add: word_less_nat_alt)
  have "motion_window irqs 0 s = motion_window irqs (10 * of_nat K) sJ"
    by (rule Suc.IH [OF K(1) p])
  also have "\<dots> = motion_window irqs (10 * of_nat K + 10) sK"
    using i m by (simp add: window_step [OF lt] un Let_def t)
  finally show ?case by (simp add: algebra_simps)
qed

lemma window_runs_out:
  assumes "passes irqs 3000 s = Some s1"
  shows "motion_window irqs 0 s = Some (True, s1)"
proof -
  have "motion_window irqs 0 s = motion_window irqs (10 * of_nat 3000) s1"
    by (rule passes_window [OF _ assms]) simp
  then show ?thesis by (simp add: window_exit)
qed

lemma window_returns_early:
  assumes "K < 3000" and "passes irqs K s = Some sK"
    and "irqs (10 * K) (delay_ms SHORT_DELAY sK) = Some s'" and "gate_moving s' = 0"
  shows "motion_window irqs 0 s = Some (False, reset_watchdog s')"
proof -
  from assms(1) have K: "K \<le> 3000" by simp
  have un: "unat (10 * of_nat K :: uint16_t) = 10 * K" by (rule window_index [OF K])
  then have lt: "(10 * of_nat K :: uint16_t) < 30000" using assms(1) by (simp add: word_less_nat_alt)
  have "gate_moving (reset_watchdog s') = 0" using assms(4) by (simp add: to_emit)
  then show ?thesis
    using assms(3) by (simp add: passes_window [OF K assms(2)] window_step [OF lt] un Let_def)
qed

lemma window_cases_from:
  assumes "K \<le> 3000" and "passes irqs K s = Some sK"
    and "motion_window irqs (10 * of_nat K) sK = Some (c, r)"
  shows "(c \<and> passes irqs 3000 s = Some r) \<or>
         (\<not> c \<and> (\<exists>J sJ s'. J < 3000 \<and> passes irqs J s = Some sJ \<and>
                     irqs (10 * J) (delay_ms SHORT_DELAY sJ) = Some s' \<and>
                     gate_moving s' = 0 \<and> r = reset_watchdog s'))"
  using assms
proof (induction "3000 - K" arbitrary: K sK)
  case 0
  then have K: "K = 3000" by simp
  with "0.prems"(3) have "c" "r = sK" by (simp_all add: window_exit)
  with "0.prems"(2) K show ?case by simp
next
  case (Suc d)
  from Suc.hyps(2) have K: "K < 3000" "K \<le> 3000" "Suc K \<le> 3000" "d = 3000 - Suc K" by simp_all
  have un: "unat (10 * of_nat K :: uint16_t) = 10 * K" by (rule window_index [OF K(2)])
  then have lt: "(10 * of_nat K :: uint16_t) < 30000" using K(1) by (simp add: word_less_nat_alt)
  from Suc.prems(3) obtain s2 where i: "irqs (10 * K) (delay_ms SHORT_DELAY sK) = Some s2"
    by (auto simp: window_step [OF lt] un split: option.splits)
  show ?case
  proof (cases "gate_moving (reset_watchdog s2) = 0")
    case True
    with Suc.prems(3) i have "\<not> c" "r = reset_watchdog s2"
      by (simp_all add: window_step [OF lt] un Let_def)
    moreover from True have "gate_moving s2 = 0" by (simp add: to_emit)
    ultimately show ?thesis using K(1) Suc.prems(2) i by blast
  next
    case False
    with Suc.prems(2) i have p: "passes irqs (Suc K) s = Some (reset_watchdog s2)" by simp
    from Suc.prems(3) i False
    have "motion_window irqs (10 * of_nat K + 10) (reset_watchdog s2) = Some (c, r)"
      by (simp add: window_step [OF lt] un Let_def)
    then have "motion_window irqs (10 * of_nat (Suc K)) (reset_watchdog s2) = Some (c, r)"
      by (simp add: algebra_simps)
    from Suc.hyps(1) [OF K(4) K(3) p this] show ?thesis .
  qed
qed

lemma window_cases:
  assumes "motion_window irqs 0 s = Some (c, r)"
  shows "(c \<and> passes irqs 3000 s = Some r) \<or>
         (\<not> c \<and> (\<exists>J sJ s'. J < 3000 \<and> passes irqs J s = Some sJ \<and>
                     irqs (10 * J) (delay_ms SHORT_DELAY sJ) = Some s' \<and>
                     gate_moving s' = 0 \<and> r = reset_watchdog s'))"
  using window_cases_from [of 0 irqs s s c r] assms by simp

lemma polled_snoc:
  "polled (Suc K) s = reset_watchdog (delay_ms SHORT_DELAY (polled K s))"
proof -
  have "replicate (Suc K) [DelayMs SHORT_DELAY, WdtReset]
          = replicate K [DelayMs SHORT_DELAY, WdtReset] @ [[DelayMs SHORT_DELAY, WdtReset]]"
    by (simp add: replicate_append_same)
  then have "window_quanta (Suc K) = window_quanta K @ [DelayMs SHORT_DELAY, WdtReset]"
    unfolding window_quanta_def by (simp only: concat_append) simp
  then show ?thesis by (simp add: polled_def to_emit emit_def)
qed

lemma passes_quiet:
  assumes "\<forall>k<K. irqs (10 * k) = no_irq" and "gate_moving s \<noteq> 0"
  shows "passes irqs K s = Some (polled K s)"
  using assms
proof (induction K)
  case 0
  then show ?case by (simp add: polled_0)
next
  case (Suc K)
  then have "passes irqs K s = Some (polled K s)" "irqs (10 * K) = no_irq" by simp_all
  then show ?case using Suc.prems(2) by (simp add: polled_snoc to_emit)
qed

lemma INT0_vect_flag_kept:
  assumes "INT0_vect pind x = Some y" and "gate_moving x \<noteq> 0" and "gate_moving y \<noteq> 0"
  shows "y = reset_watchdog (delay_ms BUTTON_DEBOUNCE_DELAY x)"
proof (cases "pind 0 AND bv BUTTON_PIN = 0")
  case False
  with assms(1) show ?thesis by (simp add: INT0_vect_def Let_def)
next
  case True
  let ?d = "reset_watchdog (delay_ms BUTTON_DEBOUNCE_DELAY x)"
  from True assms(1) obtain w where w: "wait_release pind 1 ?d = Some w"
    by (auto simp: INT0_vect_def Let_def split: option.splits)
  from wait_release_Some [OF w] obtain j where j: "w = polled j ?d" by blast
  then have "gate_moving (w\<lparr>idle_timer_ms := 0, reset_scheduled := 0\<rparr>) \<noteq> 0"
    using assms(2) by (simp add: to_emit)
  with True assms(1) w
  have "y = emergency_stop (w\<lparr>idle_timer_ms := 0, reset_scheduled := 0\<rparr>)"
    by (auto simp: INT0_vect_def Let_def split: if_splits)
  then have "gate_moving y = 0" by (simp add: emergency_stop_fields)
  with assms(3) show ?thesis by simp
qed

lemma INT0_vect_flag_cleared:
  assumes "INT0_vect pind x = Some y" and "gate_moving x \<noteq> 0" and "gate_moving y = 0"
  shows "\<exists>z. y = emergency_stop z \<and> gate_state z = gate_state x"
proof (cases "pind 0 AND bv BUTTON_PIN = 0")
  case False
  with assms(1) have "y = reset_watchdog (delay_ms BUTTON_DEBOUNCE_DELAY x)"
    by (simp add: INT0_vect_def Let_def)
  with assms(2,3) show ?thesis by (simp add: to_emit)
next
  case True
  let ?d = "reset_watchdog (delay_ms BUTTON_DEBOUNCE_DELAY x)"
  from True assms(1) obtain w where w: "wait_release pind 1 ?d = Some w"
    by (auto simp: INT0_vect_def Let_def split: option.splits)
  from wait_release_Some [OF w] obtain j where j: "w = polled j ?d" by blast
  let ?z = "w\<lparr>idle_timer_ms := 0, reset_scheduled := 0\<rparr>"
  have m: "gate_moving ?z \<noteq> 0" and g: "gate_state ?z = gate_state x"
    using assms(2) by (simp_all add: j to_emit)
  with True assms(1) w have "y = emergency_stop ?z"
    by (auto simp: INT0_vect_def Let_def split: if_splits)
  with g show ?thesis by blast
qed

lemma button_passes_frame:
  assumes "passes (button ev) K s = Some sK" and "gate_moving s \<noteq> 0"
  shows "gate_state sK = gate_state s \<and> gate_moving sK \<noteq> 0 \<and> eeprom sK = eeprom s"
  using assms
proof (induction K arbitrary: sK)
  case 0
  then show ?case by simp
next
  case (Suc K)
  from Suc.prems(1) obtain sJ s2 where
    p: "passes (button ev) K s = Some sJ"
    and i: "button ev (10 * K) (delay_ms SHORT_DELAY sJ) = Some s2"
    and m: "gate_moving (reset_watchdog s2) \<noteq> 0" and t: "sK = reset_watchdog s2"
    by (rule passes_SucE)
  from Suc.IH [OF p Suc.prems(2)]
  have f: "gate_state sJ = gate_state s" "gate_moving sJ \<noteq> 0" "eeprom sJ = eeprom s"
    by simp_all
  have "gate_state s2 = gate_state sJ \<and> eeprom s2 = eeprom sJ"
  proof (cases "ev (10 * K)")
    case None
    with i show ?thesis by (auto simp: button_def to_emit)
  next
    case (Some pind)
    with i have r: "INT0_vect pind (delay_ms SHORT_DELAY sJ) = Some s2" by (simp add: button_def)
    have "s2 = reset_watchdog (delay_ms BUTTON_DEBOUNCE_DELAY (delay_ms SHORT_DELAY sJ))"
      using m f(2) by (intro INT0_vect_flag_kept [OF r]) (simp_all add: to_emit)
    then show ?thesis by (simp add: to_emit)
  qed
  with f m t show ?case by (simp add: to_emit)
qed

lemma button_stop_resolves:
  assumes "passes (button ev) K s = Some sK" and "gate_moving s \<noteq> 0"
    and "button ev (10 * K) (delay_ms SHORT_DELAY sK) = Some s'" and "gate_moving s' = 0"
  shows "\<exists>z. s' = emergency_stop z \<and> gate_state z = gate_state s"
proof -
  from button_passes_frame [OF assms(1,2)]
  have f: "gate_state sK = gate_state s" "gate_moving sK \<noteq> 0" by simp_all
  show ?thesis
  proof (cases "ev (10 * K)")
    case None
    with assms(3) have "s' = delay_ms SHORT_DELAY sK" by (simp add: button_def)
    with f(2) assms(4) show ?thesis by (simp add: to_emit)
  next
    case (Some pind)
    with assms(3) have r: "INT0_vect pind (delay_ms SHORT_DELAY sK) = Some s'"
      by (simp add: button_def)
    have "\<exists>z. s' = emergency_stop z \<and> gate_state z = gate_state (delay_ms SHORT_DELAY sK)"
      using f(2) assms(4) by (intro INT0_vect_flag_cleared [OF r]) (simp_all add: to_emit)
    with f(1) show ?thesis by (simp add: to_emit)
  qed
qed


lemma open_gate_runs_out:
  "passes irqs 3000 (open_gate_begin s) = Some s1 \<Longrightarrow>
     open_gate irqs s = Some (open_gate_finish s1)"
  by (simp add: open_gate_def window_runs_out)

lemma close_gate_runs_out:
  "passes irqs 3000 (close_gate_begin s) = Some s1 \<Longrightarrow>
     close_gate irqs s = Some (close_gate_finish s1)"
  by (simp add: close_gate_def window_runs_out)

lemma open_gate_returns_early:
  assumes "K < 3000" and "passes irqs K (open_gate_begin s) = Some sK"
    and "irqs (10 * K) (delay_ms SHORT_DELAY sK) = Some s'" and "gate_moving s' = 0"
  shows "open_gate irqs s = Some (reset_watchdog s')"
  by (simp add: open_gate_def window_returns_early [OF assms])

lemma close_gate_returns_early:
  assumes "K < 3000" and "passes irqs K (close_gate_begin s) = Some sK"
    and "irqs (10 * K) (delay_ms SHORT_DELAY sK) = Some s'" and "gate_moving s' = 0"
  shows "close_gate irqs s = Some (reset_watchdog s')"
  by (simp add: close_gate_def window_returns_early [OF assms])

lemma open_gate_cases:
  assumes "open_gate irqs s = Some r"
  shows "(\<exists>s1. passes irqs 3000 (open_gate_begin s) = Some s1 \<and> r = open_gate_finish s1) \<or>
         (\<exists>J sJ s'. J < 3000 \<and> passes irqs J (open_gate_begin s) = Some sJ \<and>
                     irqs (10 * J) (delay_ms SHORT_DELAY sJ) = Some s' \<and>
                     gate_moving s' = 0 \<and> r = reset_watchdog s')"
proof -
  from assms obtain c r1 where w: "motion_window irqs 0 (open_gate_begin s) = Some (c, r1)"
    and r: "r = (if c then open_gate_finish r1 else r1)"
    by (auto simp: open_gate_def split: option.splits)
  from window_cases [OF w] r show ?thesis by auto
qed

lemma close_gate_cases:
  assumes "close_gate irqs s = Some r"
  shows "(\<exists>s1. passes irqs 3000 (close_gate_begin s) = Some s1 \<and> r = close_gate_finish s1) \<or>
         (\<exists>J sJ s'. J < 3000 \<and> passes irqs J (close_gate_begin s) = Some sJ \<and>
                     irqs (10 * J) (delay_ms SHORT_DELAY sJ) = Some s' \<and>
                     gate_moving s' = 0 \<and> r = reset_watchdog s')"
proof -
  from assms obtain c r1 where w: "motion_window irqs 0 (close_gate_begin s) = Some (c, r1)"
    and r: "r = (if c then close_gate_finish r1 else r1)"
    by (auto simp: close_gate_def split: option.splits)
  from window_cases [OF w] r show ?thesis by auto
qed

lemma stopped_state:
  assumes "s' = emergency_stop z"
  shows "gate_state (reset_watchdog s') =
           (if gate_state z = GATE_OPENING then GATE_OPEN
            else if gate_state z = GATE_CLOSING then GATE_CLOSED else gate_state z)"
    and "read_gate_state (reset_watchdog s') = gate_state (reset_watchdog s')"
    and "gate_moving (reset_watchdog s') = 0"
    and "outputs_off (reset_watchdog s')"
proof -
  show "gate_state (reset_watchdog s') =
           (if gate_state z = GATE_OPENING then GATE_OPEN
            else if gate_state z = GATE_CLOSING then GATE_CLOSED else gate_state z)"
    by (simp add: assms to_emit emergency_stop_fields)
  show "read_gate_state (reset_watchdog s') = gate_state (reset_watchdog s')"
    by (simp add: assms to_emit emergency_stop_persisted)
  show "gate_moving (reset_watchdog s') = 0"
    by (simp add: assms to_emit emergency_stop_fields)
  have "outputs_off (reset_watchdog s') = outputs_off (emergency_stop z)"
    by (rule outputs_off_cong) (simp_all add: assms to_emit)
  then show "outputs_off (reset_watchdog s')" by (simp add: emergency_stop_outputs_off)
qed

lemma open_gate_button_early:
  assumes "passes (button ev) K (open_gate_begin s) = Some sK"
    and "button ev (10 * K) (delay_ms SHORT_DELAY sK) = Some s'" and "gate_moving s' = 0"
  shows "(\<exists>z. s' = emergency_stop z \<and> gate_state z = GATE_OPENING) \<and>
         gate_state (reset_watchdog s') = GATE_OPEN \<and>
         read_gate_state (reset_watchdog s') = GATE_OPEN \<and>
         gate_moving (reset_watchdog s') = 0 \<and> outputs_off (reset_watchdog s')"
proof -
  have "gate_moving (open_gate_begin s) \<noteq> 0" by (simp add: open_gate_begin_fields)
  from button_stop_resolves [OF assms(1) this assms(2,3)]
  obtain z where z: "s' = emergency_stop z" "gate_state z = GATE_OPENING"
    by (auto simp: open_gate_begin_fields)
  from stopped_state [OF z(1)] z show ?thesis by auto
qed

lemma close_gate_button_early:
  assumes "passes (button ev) K (close_gate_begin s) = Some sK"
    and "button ev (10 * K) (delay_ms SHORT_DELAY sK) = Some s'" and "gate_moving s' = 0"
  shows "(\<exists>z. s' = emergency_stop z \<and> gate_state z = GATE_CLOSING) \<and>
         gate_state (reset_watchdog s') = GATE_CLOSED \<and>
         read_gate_state (reset_watchdog s') = GATE_CLOSED \<and>
         gate_moving (reset_watchdog s') = 0 \<and> outputs_off (reset_watchdog s')"
proof -
  have "gate_moving (close_gate_begin s) \<noteq> 0" by (simp add: close_gate_begin_fields)
  from button_stop_resolves [OF assms(1) this assms(2,3)]
  obtain z where z: "s' = emergency_stop z" "gate_state z = GATE_CLOSING"
    by (auto simp: close_gate_begin_fields)
  from stopped_state [OF z(1)] z show ?thesis by auto
qed

lemma open_gate_button_result:
  assumes "open_gate (button ev) s = Some r"
  shows "gate_state r = GATE_OPEN \<and> read_gate_state r = GATE_OPEN \<and>
         gate_moving r = 0 \<and> outputs_off r"
  using open_gate_cases [OF assms]
proof
  assume "\<exists>s1. passes (button ev) 3000 (open_gate_begin s) = Some s1 \<and> r = open_gate_finish s1"
  then show ?thesis by (auto simp: open_gate_finish_fields)
next
  assume "\<exists>J sJ s'. J < 3000 \<and> passes (button ev) J (open_gate_begin s) = Some sJ \<and>
            button ev (10 * J) (delay_ms SHORT_DELAY sJ) = Some s' \<and>
            gate_moving s' = 0 \<and> r = reset_watchdog s'"
  then obtain J sJ s' where "passes (button ev) J (open_gate_begin s) = Some sJ"
    "button ev (10 * J) (delay_ms SHORT_DELAY sJ) = Some s'" "gate_moving s' = 0"
    "r = reset_watchdog s'"
    by blast
  with open_gate_button_early [of ev J s sJ s'] show ?thesis by simp
qed

lemma close_gate_button_result:
  assumes "close_gate (button ev) s = Some r"
  shows "gate_state r = GATE_CLOSED \<and> read_gate_state r = GATE_CLOSED \<and>
         gate_moving r = 0 \<and> outputs_off r"
  using close_gate_cases [OF assms]
proof
  assume "\<exists>s1. passes (button ev) 3000 (close_gate_begin s) = Some s1 \<and> r = close_gate_finish s1"
  then show ?thesis by (auto simp: close_gate_finish_fields)
next
  assume "\<exists>J sJ s'. J < 3000 \<and> passes (button ev) J (close_gate_begin s) = Some sJ \<and>
            button ev (10 * J) (delay_ms SHORT_DELAY sJ) = Some s' \<and>
            gate_moving s' = 0 \<and> r = reset_watchdog s'"
  then obtain J sJ s' where "passes (button ev) J (close_gate_begin s) = Some sJ"
    "button ev (10 * J) (delay_ms SHORT_DELAY sJ) = Some s'" "gate_moving s' = 0"
    "r = reset_watchdog s'"
    by blast
  with close_gate_button_early [of ev J s sJ s'] show ?thesis by simp
qed

lemma passes_bounce:
  assumes "gate_moving s \<noteq> 0"
  shows "passes (button bounce_then_press) 2 s = Some (after_bounce s)"
proof -
  have one: "passes (button bounce_then_press) 1 s = Some (polled 1 s)"
    using assms by (intro passes_quiet) (simp_all add: button_def bounce_then_press_def)
  have "INT0_vect bounce (delay_ms SHORT_DELAY (polled 1 s))
          = Some (reset_watchdog (delay_ms BUTTON_DEBOUNCE_DELAY (delay_ms SHORT_DELAY (polled 1 s))))"
    by (rule INT0_vect_no_press) (simp add: bounce_def bv_def)
  then have "button bounce_then_press (10 * 1) (delay_ms SHORT_DELAY (polled 1 s))
          = Some (reset_watchdog (delay_ms BUTTON_DEBOUNCE_DELAY (delay_ms SHORT_DELAY (polled 1 s))))"
    by (simp add: button_def bounce_then_press_def)
  with one assms show ?thesis
    by (simp add: numeral_2_eq_2 after_bounce_def to_emit)
qed

lemma press_after_bounce:
  assumes "gate_moving s \<noteq> 0"
  shows "button bounce_then_press (10 * 2) (delay_ms SHORT_DELAY (after_bounce s))
           = Some (stopped_by_press (delay_ms SHORT_DELAY (after_bounce s)))"
  using assms
  by (simp add: button_def bounce_then_press_def INT0_vect_press_moving after_bounce_def to_emit)

text \<open>
  C2, as stated: when MovingFlag is cleared externally during the window, the routine
  returns early and GateState stays transient. In the firmware the flag is cleared
  during a window only by the button handler, through \<^verbatim>\<open>emergency_stop\<close>, which also
  resolves GateState and writes it to the store. With a press in the third quantum of
  an opening window, the flag is set when the quantum starts and cleared when the handler
  returns, the loop takes its early \<^verbatim>\<open>return\<close>, and GateState is then Open, neither
  Opening nor Closing; the gate-state cell, Closed before, holds Open.
\<close>

theorem motion_window_counterexample:
  "gate_state (delay_ms SHORT_DELAY (polled 2 (open_gate_begin (power_on (\<lambda>a. GATE_CLOSED)))))
     = GATE_OPENING \<and>
   gate_moving (delay_ms SHORT_DELAY (polled 2 (open_gate_begin (power_on (\<lambda>a. GATE_CLOSED)))))
     \<noteq> 0 \<and>
   pressed_at 20 (10 * 2)
      (delay_ms SHORT_DELAY (polled 2 (open_gate_begin (power_on (\<lambda>a. GATE_CLOSED)))))
     = Some (stopped_by_press
        (delay_ms SHORT_DELAY (polled 2 (open_gate_begin (power_on (\<lambda>a. GATE_CLOSED)))))) \<and>
   gate_moving (stopped_by_press
      (delay_ms SHORT_DELAY (polled 2 (open_gate_begin (power_on (\<lambda>a. GATE_CLOSED)))))) = 0 \<and>
   motion_window (pressed_at 20) 0 (open_gate_begin (power_on (\<lambda>a. GATE_CLOSED)))
     = Some (False, reset_watchdog (stopped_by_press
        (delay_ms SHORT_DELAY (polled 2 (open_gate_begin (power_on (\<lambda>a. GATE_CLOSED))))))) \<and>
   open_gate (pressed_at 20) (power_on (\<lambda>a. GATE_CLOSED))
     = Some (reset_watchdog (stopped_by_press
        (delay_ms SHORT_DELAY (polled 2 (open_gate_begin (power_on (\<lambda>a. GATE_CLOSED))))))) \<and>
   gate_state (reset_watchdog (stopped_by_press
        (delay_ms SHORT_DELAY (polled 2 (open_gate_begin (power_on (\<lambda>a. GATE_CLOSED)))))))
     = GATE_OPEN \<and>
   gate_state (reset_watchdog (stopped_by_press
        (delay_ms SHORT_DELAY (polled 2 (open_gate_begin (power_on (\<lambda>a. GATE_CLOSED)))))))
     \<noteq> GATE_OPENING \<and>
   gate_state (reset_watchdog (stopped_by_press
        (delay_ms SHORT_DELAY (polled 2 (open_gate_begin (power_on (\<lambda>a. GATE_CLOSED)))))))
     \<noteq> GATE_CLOSING \<and>
   eeprom (power_on (\<lambda>a. GATE_CLOSED)) EEPROM_ADDR = GATE_CLOSED \<and>
   eeprom (reset_watchdog (stopped_by_press
        (delay_ms SHORT_DELAY (polled 2 (open_gate_begin (power_on (\<lambda>a. GATE_CLOSED)))))))
     EEPROM_ADDR = GATE_OPEN"
proof -
  let ?c = "power_on (\<lambda>a. GATE_CLOSED)"
  let ?x = "delay_ms SHORT_DELAY (polled 2 (open_gate_begin ?c))"
  let ?r = "reset_watchdog (stopped_by_press ?x)"
  have g: "gate_state ?x = GATE_OPENING" and m: "gate_moving ?x \<noteq> 0"
    by (simp_all add: to_emit open_gate_begin_fields)
  have q: "(2::nat) < 3000" "\<forall>k<2. pressed_at 20 (10 * k) = no_irq"
    by (simp_all add: pressed_at_def)
  have i: "pressed_at 20 (10 * 2) ?x = Some (stopped_by_press ?x)"
    using m by (simp add: pressed_at_def INT0_vect_press_moving)
  have f: "gate_moving (stopped_by_press ?x) = 0"
    by (simp add: stopped_by_press_def emergency_stop_fields)
  have b: "gate_moving (open_gate_begin ?c) \<noteq> 0" by (simp add: open_gate_begin_fields)
  have w: "motion_window (pressed_at 20) 0 (open_gate_begin ?c) = Some (False, ?r)"
    by (rule window_interrupted [OF q b i f])
  have o: "open_gate (pressed_at 20) ?c = Some ?r"
    by (rule open_gate_interrupted [OF q i f])
  have s: "gate_state ?r = GATE_OPEN"
    using g by (simp add: stopped_by_press_def emergency_stop_fields to_emit)
  then have n: "gate_state ?r \<noteq> GATE_OPENING" "gate_state ?r \<noteq> GATE_CLOSING" by simp_all
  have e0: "eeprom ?c EEPROM_ADDR = GATE_CLOSED" by (simp add: power_on_def)
  have "eeprom ?r EEPROM_ADDR = gate_state (stopped_by_press ?x)"
    unfolding stopped_by_press_def
    by (simp add: to_emit, rule emergency_stop_raw)
      (simp_all add: to_emit open_gate_begin_fields power_on_def)
  with s have e1: "eeprom ?r EEPROM_ADDR = GATE_OPEN" by (simp add: to_emit)
  from g m i f w o s n e0 e1 show ?thesis by (intro conjI)
qed

text \<open>
  C2, amended. The motion window of \<^verbatim>\<open>open_gate\<close>, and symmetrically of
  \<^verbatim>\<open>close_gate\<close>, starts with the direction relays energized, GateState transient and
  MovingFlag set. Left undisturbed, the routine polls 3000 times, each time waiting
  10 ms and then servicing the watchdog. Whatever the interrupt activity:

  \<^item> if each of the 3000 passes finds MovingFlag set at its check, the routine
    finalizes: all outputs low, MovingFlag false, GateState the resting value (Open for
    \<^verbatim>\<open>open_gate\<close>, Closed for \<^verbatim>\<open>close_gate\<close>), and the store reading back as that
    value (the stored byte is that value itself unless the cell already held the
    transient code of the same direction);
  \<^item> if the first \<open>K\<close> passes find the flag set and the interrupt activity of the next
    quantum leaves it cleared, the routine returns right after the watchdog service of
    that quantum without finalizing: it returns the state the interrupt left, with that
    one service added to the trace, so the routine itself neither assigns GateState nor
    writes to storage;
  \<^item> a routine that returns has done one or the other.

  Under the firmware's own interrupt activity (the button handler, on any button
  events) the state the interrupt leaves on the early path is that of the emergency
  stop: GateState is already the resting value and the store reads back as it. So
  whichever way the routine returns, the gate is at rest in the resting state of its
  direction.
\<close>

theorem motion_window_contract:
  "(gate_state (open_gate_begin s) = GATE_OPENING \<and> gate_moving (open_gate_begin s) \<noteq> 0 \<and>
      bit (PORTB (open_gate_begin s)) RELAY_K1 \<and> bit (PORTB (open_gate_begin s)) RELAY_K4 \<and>
    gate_state (close_gate_begin s) = GATE_CLOSING \<and> gate_moving (close_gate_begin s) \<noteq> 0 \<and>
      bit (PORTB (close_gate_begin s)) RELAY_K2 \<and> bit (PORTB (close_gate_begin s)) RELAY_K3) \<and>
   ((\<forall>k<3000. irqs (10 * k) = no_irq) \<longrightarrow>
      open_gate irqs s = Some (open_gate_finish (polled 3000 (open_gate_begin s))) \<and>
      close_gate irqs s = Some (close_gate_finish (polled 3000 (close_gate_begin s))) \<and>
      trace (polled 3000 (open_gate_begin s))
        = trace (open_gate_begin s) @ concat (replicate 3000 [DelayMs SHORT_DELAY, WdtReset])) \<and>
   (passes irqs 3000 (open_gate_begin s) = Some s1 \<longrightarrow>
      open_gate irqs s = Some (open_gate_finish s1)) \<and>
   (passes irqs 3000 (close_gate_begin s) = Some s1 \<longrightarrow>
      close_gate irqs s = Some (close_gate_finish s1)) \<and>
   (outputs_off (open_gate_finish s1) \<and> gate_moving (open_gate_finish s1) = 0 \<and>
      gate_state (open_gate_finish s1) = GATE_OPEN \<and> read_gate_state (open_gate_finish s1) = GATE_OPEN \<and>
    outputs_off (close_gate_finish s1) \<and> gate_moving (close_gate_finish s1) = 0 \<and>
      gate_state (close_gate_finish s1) = GATE_CLOSED \<and>
      read_gate_state (close_gate_finish s1) = GATE_CLOSED) \<and>
   (eeprom s1 EEPROM_ADDR \<noteq> GATE_OPENING \<longrightarrow>
      eeprom (open_gate_finish s1) EEPROM_ADDR = GATE_OPEN) \<and>
   (eeprom s1 EEPROM_ADDR \<noteq> GATE_CLOSING \<longrightarrow>
      eeprom (close_gate_finish s1) EEPROM_ADDR = GATE_CLOSED) \<and>
   (K < 3000 \<and> passes irqs K (open_gate_begin s) = Some sK \<and> gate_moving s' = 0 \<and>
      irqs (10 * K) (delay_ms SHORT_DELAY sK) = Some s' \<longrightarrow>
        open_gate irqs s = Some (reset_watchdog s')) \<and>
   (K < 3000 \<and> passes irqs K (close_gate_begin s) = Some sK \<and> gate_moving s' = 0 \<and>
      irqs (10 * K) (delay_ms SHORT_DELAY sK) = Some s' \<longrightarrow>
        close_gate irqs s = Some (reset_watchdog s')) \<and>
   (gate_state (reset_watchdog s') = gate_state s' \<and> eeprom (reset_watchdog s') = eeprom s' \<and>
      PORTB (reset_watchdog s') = PORTB s' \<and> PORTD (reset_watchdog s') = PORTD s' \<and>
      trace (reset_watchdog s') = trace s' @ [WdtReset]) \<and>
   (open_gate irqs s = Some r \<longrightarrow>
      (\<exists>s1. passes irqs 3000 (open_gate_begin s) = Some s1 \<and> r = open_gate_finish s1) \<or>
      (\<exists>J sJ s'. J < 3000 \<and> passes irqs J (open_gate_begin s) = Some sJ \<and>
                  irqs (10 * J) (delay_ms SHORT_DELAY sJ) = Some s' \<and>
                  gate_moving s' = 0 \<and> r = reset_watchdog s')) \<and>
   (close_gate irqs s = Some r \<longrightarrow>
      (\<exists>s1. passes irqs 3000 (close_gate_begin s) = Some s1 \<and> r = close_gate_finish s1) \<or>
      (\<exists>J sJ s'. J < 3000 \<and> passes irqs J (close_gate_begin s) = Some sJ \<and>
                  irqs (10 * J) (delay_ms SHORT_DELAY sJ) = Some s' \<and>
                  gate_moving s' = 0 \<and> r = reset_watchdog s')) \<and>
   (passes (button ev) K (open_gate_begin s) = Some sK \<and> gate_moving s' = 0 \<and>
      button ev (10 * K) (delay_ms SHORT_DELAY sK) = Some s' \<longrightarrow>
        (\<exists>z. s' = emergency_stop z \<and> gate_state z = GATE_OPENING) \<and>
        gate_state (reset_watchdog s') = GATE_OPEN \<and>
        read_gate_state (reset_watchdog s') = GATE_OPEN) \<and>
   (passes (button ev) K (close_gate_begin s) = Some sK \<and> gate_moving s' = 0 \<and>
      button ev (10 * K) (delay_ms SHORT_DELAY sK) = Some s' \<longrightarrow>
        (\<exists>z. s' = emergency_stop z \<and> gate_state z = GATE_CLOSING) \<and>
        gate_state (reset_watchdog s') = GATE_CLOSED \<and>
        read_gate_state (reset_watchdog s') = GATE_CLOSED) \<and>
   (open_gate (button ev) s = Some r \<longrightarrow>
      gate_state r = GATE_OPEN \<and> read_gate_state r = GATE_OPEN \<and>
      gate_moving r = 0 \<and> outputs_off r) \<and>
   (close_gate (button ev) s = Some r \<longrightarrow>
      gate_state r = GATE_CLOSED \<and> read_gate_state r = GATE_CLOSED \<and>
      gate_moving r = 0 \<and> outputs_off r)"
proof -
  have a: "(gate_state (open_gate_begin s) = GATE_OPENING \<and> gate_moving (open_gate_begin s) \<noteq> 0 \<and>
      bit (PORTB (open_gate_begin s)) RELAY_K1 \<and> bit (PORTB (open_gate_begin s)) RELAY_K4 \<and>
    gate_state (close_gate_begin s) = GATE_CLOSING \<and> gate_moving (close_gate_begin s) \<noteq> 0 \<and>
      bit (PORTB (close_gate_begin s)) RELAY_K2 \<and> bit (PORTB (close_gate_begin s)) RELAY_K3) \<and>
   ((\<forall>k<3000. irqs (10 * k) = no_irq) \<longrightarrow>
      open_gate irqs s = Some (open_gate_finish (polled 3000 (open_gate_begin s))) \<and>
      close_gate irqs s = Some (close_gate_finish (polled 3000 (close_gate_begin s))) \<and>
      trace (polled 3000 (open_gate_begin s))
        = trace (open_gate_begin s) @ concat (replicate 3000 [DelayMs SHORT_DELAY, WdtReset])) \<and>
   (passes irqs 3000 (open_gate_begin s) = Some s1 \<longrightarrow>
      open_gate irqs s = Some (open_gate_finish s1)) \<and>
   (passes irqs 3000 (close_gate_begin s) = Some s1 \<longrightarrow>
      close_gate irqs s = Some (close_gate_finish s1)) \<and>
   (outputs_off (open_gate_finish s1) \<and> gate_moving (open_gate_finish s1) = 0 \<and>
      gate_state (open_gate_finish s1) = GATE_OPEN \<and> read_gate_state (open_gate_finish s1) = GATE_OPEN \<and>
    outputs_off (close_gate_finish s1) \<and> gate_moving (close_gate_finish s1) = 0 \<and>
      gate_state (close_gate_finish s1) = GATE_CLOSED \<and>
      read_gate_state (close_gate_finish s1) = GATE_CLOSED) \<and>
   (eeprom s1 EEPROM_ADDR \<noteq> GATE_OPENING \<longrightarrow>
      eeprom (open_gate_finish s1) EEPROM_ADDR = GATE_OPEN) \<and>
   (eeprom s1 EEPROM_ADDR \<noteq> GATE_CLOSING \<longrightarrow>
      eeprom (close_gate_finish s1) EEPROM_ADDR = GATE_CLOSED)"
    using open_gate_completes [of irqs s] close_gate_completes [of irqs s]
      open_gate_runs_out [of irqs s s1] close_gate_runs_out [of irqs s s1]
      open_gate_begin_outputs [of s] close_gate_begin_outputs [of s]
    by (simp add: open_gate_begin_fields close_gate_begin_fields window_quanta_def
        open_gate_finish_fields close_gate_finish_fields)
  have b: "(K < 3000 \<and> passes irqs K (open_gate_begin s) = Some sK \<and> gate_moving s' = 0 \<and>
      irqs (10 * K) (delay_ms SHORT_DELAY sK) = Some s' \<longrightarrow>
        open_gate irqs s = Some (reset_watchdog s')) \<and>
   (K < 3000 \<and> passes irqs K (close_gate_begin s) = Some sK \<and> gate_moving s' = 0 \<and>
      irqs (10 * K) (delay_ms SHORT_DELAY sK) = Some s' \<longrightarrow>
        close_gate irqs s = Some (reset_watchdog s')) \<and>
   (gate_state (reset_watchdog s') = gate_state s' \<and> eeprom (reset_watchdog s') = eeprom s' \<and>
      PORTB (reset_watchdog s') = PORTB s' \<and> PORTD (reset_watchdog s') = PORTD s' \<and>
      trace (reset_watchdog s') = trace s' @ [WdtReset])"
    using open_gate_returns_early [of K irqs s sK s'] close_gate_returns_early [of K irqs s sK s']
    by (simp add: reset_watchdog_def)
  have c: "(open_gate irqs s = Some r \<longrightarrow>
      (\<exists>s1. passes irqs 3000 (open_gate_begin s) = Some s1 \<and> r = open_gate_finish s1) \<or>
      (\<exists>J sJ s'. J < 3000 \<and> passes irqs J (open_gate_begin s) = Some sJ \<and>
                  irqs (10 * J) (delay_ms SHORT_DELAY sJ) = Some s' \<and>
                  gate_moving s' = 0 \<and> r = reset_watchdog s')) \<and>
   (close_gate irqs s = Some r \<longrightarrow>
      (\<exists>s1. passes irqs 3000 (close_gate_begin s) = Some s1 \<and> r = close_gate_finish s1) \<or>
      (\<exists>J sJ s'. J < 3000 \<and> passes irqs J (close_gate_begin s) = Some sJ \<and>
                  irqs (10 * J) (delay_ms SHORT_DELAY sJ) = Some s' \<and>
                  gate_moving s' = 0 \<and> r = reset_watchdog s'))"
    using open_gate_cases [of irqs s r] close_gate_cases [of irqs s r] by blast
  have d: "(passes (button ev) K (open_gate_begin s) = Some sK \<and> gate_moving s' = 0 \<and>
      button ev (10 * K) (delay_ms SHORT_DELAY sK) = Some s' \<longrightarrow>
        (\<exists>z. s' = emergency_stop z \<and> gate_state z = GATE_OPENING) \<and>
        gate_state (reset_watchdog s') = GATE_OPEN \<and>
        read_gate_state (reset_watchdog s') = GATE_OPEN) \<and>
   (passes (button ev) K (close_gate_begin s) = Some sK \<and> gate_moving s' = 0 \<and>
      button ev (10 * K) (delay_ms SHORT_DELAY sK) = Some s' \<longrightarrow>
        (\<exists>z. s' = emergency_stop z \<and> gate_state z = GATE_CLOSING) \<and>
        gate_state (reset_watchdog s') = GATE_CLOSED \<and>
        read_gate_state (reset_watchdog s') = GATE_CLOSED)"
    using open_gate_button_early [of ev K s sK s'] close_gate_button_early [of ev K s sK s']
    by blast
  have e: "(open_gate (button ev) s = Some r \<longrightarrow>
      gate_state r = GATE_OPEN \<and> read_gate_state r = GATE_OPEN \<and>
      gate_moving r = 0 \<and> outputs_off r) \<and>
   (close_gate (button ev) s = Some r \<longrightarrow>
      gate_state r = GATE_CLOSED \<and> read_gate_state r = GATE_CLOSED \<and>
      gate_moving r = 0 \<and> outputs_off r)"
    using open_gate_button_result [of ev s r] close_gate_button_result [of ev s r] by blast
  from a b c d e show ?thesis by (elim conjE) (intro conjI; assumption)
qed


theorem motion_window_contract_witness:
  "\<not> (\<exists>k<3000. quiet (10 * k) \<noteq> no_irq) \<and>
   open_gate quiet (power_on (\<lambda>a. GATE_CLOSED))
     = Some (open_gate_finish (polled 3000 (open_gate_begin (power_on (\<lambda>a. GATE_CLOSED))))) \<and>
   close_gate quiet (power_on (\<lambda>a. GATE_OPEN))
     = Some (close_gate_finish (polled 3000 (close_gate_begin (power_on (\<lambda>a. GATE_OPEN))))) \<and>
   passes quiet 3000 (open_gate_begin (power_on (\<lambda>a. GATE_CLOSED)))
     = Some (polled 3000 (open_gate_begin (power_on (\<lambda>a. GATE_CLOSED)))) \<and>
   passes quiet 3000 (close_gate_begin (power_on (\<lambda>a. GATE_OPEN)))
     = Some (polled 3000 (close_gate_begin (power_on (\<lambda>a. GATE_OPEN)))) \<and>
   gate_state (open_gate_finish (polled 3000 (open_gate_begin (power_on (\<lambda>a. GATE_CLOSED)))))
     = GATE_OPEN \<and>
   eeprom (polled 3000 (open_gate_begin (power_on (\<lambda>a. GATE_CLOSED)))) EEPROM_ADDR
     \<noteq> GATE_OPENING \<and>
   eeprom (open_gate_finish (polled 3000 (open_gate_begin (power_on (\<lambda>a. GATE_CLOSED)))))
     EEPROM_ADDR = GATE_OPEN \<and>
   eeprom (polled 3000 (close_gate_begin (power_on (\<lambda>a. GATE_OPEN)))) EEPROM_ADDR
     \<noteq> GATE_CLOSING \<and>
   eeprom (close_gate_finish (polled 3000 (close_gate_begin (power_on (\<lambda>a. GATE_OPEN)))))
     EEPROM_ADDR = GATE_CLOSED \<and>
   (2::nat) < 3000 \<and>
   passes (button bounce_then_press) 2 (open_gate_begin (power_on (\<lambda>a. GATE_CLOSED)))
     = Some (after_bounce (open_gate_begin (power_on (\<lambda>a. GATE_CLOSED)))) \<and>
   gate_moving (stopped_by_press
      (delay_ms SHORT_DELAY (after_bounce (open_gate_begin (power_on (\<lambda>a. GATE_CLOSED)))))) = 0 \<and>
   button bounce_then_press (10 * 2)
      (delay_ms SHORT_DELAY (after_bounce (open_gate_begin (power_on (\<lambda>a. GATE_CLOSED)))))
     = Some (stopped_by_press
        (delay_ms SHORT_DELAY (after_bounce (open_gate_begin (power_on (\<lambda>a. GATE_CLOSED)))))) \<and>
   open_gate (button bounce_then_press) (power_on (\<lambda>a. GATE_CLOSED))
     = Some (reset_watchdog (stopped_by_press
        (delay_ms SHORT_DELAY (after_bounce (open_gate_begin (power_on (\<lambda>a. GATE_CLOSED))))))) \<and>
   gate_state (reset_watchdog (stopped_by_press
        (delay_ms SHORT_DELAY (after_bounce (open_gate_begin (power_on (\<lambda>a. GATE_CLOSED)))))))
     = GATE_OPEN \<and>
   read_gate_state (reset_watchdog (stopped_by_press
        (delay_ms SHORT_DELAY (after_bounce (open_gate_begin (power_on (\<lambda>a. GATE_CLOSED)))))))
     = GATE_OPEN \<and>
   passes (button bounce_then_press) 2 (close_gate_begin (power_on (\<lambda>a. GATE_OPEN)))
     = Some (after_bounce (close_gate_begin (power_on (\<lambda>a. GATE_OPEN)))) \<and>
   gate_moving (stopped_by_press
      (delay_ms SHORT_DELAY (after_bounce (close_gate_begin (power_on (\<lambda>a. GATE_OPEN)))))) = 0 \<and>
   button bounce_then_press (10 * 2)
      (delay_ms SHORT_DELAY (after_bounce (close_gate_begin (power_on (\<lambda>a. GATE_OPEN)))))
     = Some (stopped_by_press
        (delay_ms SHORT_DELAY (after_bounce (close_gate_begin (power_on (\<lambda>a. GATE_OPEN)))))) \<and>
   close_gate (button bounce_then_press) (power_on (\<lambda>a. GATE_OPEN))
     = Some (reset_watchdog (stopped_by_press
        (delay_ms SHORT_DELAY (after_bounce (close_gate_begin (power_on (\<lambda>a. GATE_OPEN))))))) \<and>
   gate_state (reset_watchdog (stopped_by_press
        (delay_ms SHORT_DELAY (after_bounce (close_gate_begin (power_on (\<lambda>a. GATE_OPEN)))))))
     = GATE_CLOSED \<and>
   read_gate_state (reset_watchdog (stopped_by_press
        (delay_ms SHORT_DELAY (after_bounce (close_gate_begin (power_on (\<lambda>a. GATE_OPEN)))))))
     = GATE_CLOSED \<and>
   (\<exists>z. stopped_by_press
           (delay_ms SHORT_DELAY (after_bounce (open_gate_begin (power_on (\<lambda>a. GATE_CLOSED)))))
         = emergency_stop z \<and> gate_state z = GATE_OPENING) \<and>
   (\<exists>z. stopped_by_press
           (delay_ms SHORT_DELAY (after_bounce (close_gate_begin (power_on (\<lambda>a. GATE_OPEN)))))
         = emergency_stop z \<and> gate_state z = GATE_CLOSING)"
proof -
  let ?c = "power_on (\<lambda>a. GATE_CLOSED)"
  let ?o = "power_on (\<lambda>a. GATE_OPEN)"
  let ?b = "button bounce_then_press"
  let ?po = "open_gate_begin ?c"
  let ?pc = "close_gate_begin ?o"
  let ?xo = "delay_ms SHORT_DELAY (after_bounce ?po)"
  let ?xc = "delay_ms SHORT_DELAY (after_bounce ?pc)"
  let ?ro = "reset_watchdog (stopped_by_press ?xo)"
  let ?rc = "reset_watchdog (stopped_by_press ?xc)"
  have mv: "gate_moving ?po \<noteq> 0" "gate_moving ?pc \<noteq> 0"
    by (simp_all add: open_gate_begin_fields close_gate_begin_fields)
  have q: "\<forall>k<3000. quiet (10 * k) = no_irq" by (simp add: quiet_def)
  then have nq: "\<not> (\<exists>k<3000. quiet (10 * k) \<noteq> no_irq)" by blast
  have pq: "passes quiet 3000 ?po = Some (polled 3000 ?po)"
    "passes quiet 3000 ?pc = Some (polled 3000 ?pc)"
    by (rule passes_quiet [OF q mv(1)], rule passes_quiet [OF q mv(2)])
  have e: "eeprom (polled 3000 ?po) EEPROM_ADDR \<noteq> GATE_OPENING"
    "eeprom (polled 3000 ?pc) EEPROM_ADDR \<noteq> GATE_CLOSING"
    by (simp_all add: open_gate_begin_fields close_gate_begin_fields power_on_def)
  have k: "(2::nat) < 3000" by simp
  have pb: "passes ?b 2 ?po = Some (after_bounce ?po)" "passes ?b 2 ?pc = Some (after_bounce ?pc)"
    by (rule passes_bounce [OF mv(1)], rule passes_bounce [OF mv(2)])
  have mx: "gate_moving (after_bounce ?po) \<noteq> 0" "gate_moving (after_bounce ?pc) \<noteq> 0"
    using mv by (simp_all add: after_bounce_def to_emit)
  have f: "gate_moving (stopped_by_press ?xo) = 0" "gate_moving (stopped_by_press ?xc) = 0"
    by (simp_all add: stopped_by_press_def emergency_stop_fields)
  have i: "?b (10 * 2) ?xo = Some (stopped_by_press ?xo)"
    "?b (10 * 2) ?xc = Some (stopped_by_press ?xc)"
    by (rule press_after_bounce [OF mv(1)], rule press_after_bounce [OF mv(2)])
  note t1 = motion_window_contract [of ?c quiet "polled 3000 ?po" 2 "after_bounce ?po"
      "stopped_by_press ?xo" ?ro bounce_then_press]
  note t2 = motion_window_contract [of ?o quiet "polled 3000 ?pc" 2 "after_bounce ?pc"
      "stopped_by_press ?xc" ?rc bounce_then_press]
  note t3 = motion_window_contract [of ?c ?b "polled 3000 ?po" 2 "after_bounce ?po"
      "stopped_by_press ?xo" ?ro bounce_then_press]
  note t4 = motion_window_contract [of ?o ?b "polled 3000 ?pc" 2 "after_bounce ?pc"
      "stopped_by_press ?xc" ?rc bounce_then_press]
  have r1: "open_gate quiet ?c = Some (open_gate_finish (polled 3000 ?po))"
    using t1 [THEN conjunct2, THEN conjunct1] q by blast
  have r2: "close_gate quiet ?o = Some (close_gate_finish (polled 3000 ?pc))"
    using t2 [THEN conjunct2, THEN conjunct2, THEN conjunct2, THEN conjunct1] pq(2) by blast
  have r3: "gate_state (open_gate_finish (polled 3000 ?po)) = GATE_OPEN"
    using t1 [THEN conjunct2, THEN conjunct2, THEN conjunct2, THEN conjunct2, THEN conjunct1] by blast
  have r4: "eeprom (open_gate_finish (polled 3000 ?po)) EEPROM_ADDR = GATE_OPEN"
    using t1 [THEN conjunct2, THEN conjunct2, THEN conjunct2, THEN conjunct2, THEN conjunct2, THEN conjunct1] e(1) by blast
  have r5: "eeprom (close_gate_finish (polled 3000 ?pc)) EEPROM_ADDR = GATE_CLOSED"
    using t2 [THEN conjunct2, THEN conjunct2, THEN conjunct2, THEN conjunct2, THEN conjunct2, THEN conjunct2, THEN conjunct1] e(2) by blast
  have r6: "open_gate ?b ?c = Some ?ro"
    using t3 [THEN conjunct2, THEN conjunct2, THEN conjunct2, THEN conjunct2, THEN conjunct2, THEN conjunct2, THEN conjunct2, THEN conjunct1] k pb(1) f(1) i(1) by blast
  have r7: "close_gate ?b ?o = Some ?rc"
    using t4 [THEN conjunct2, THEN conjunct2, THEN conjunct2, THEN conjunct2, THEN conjunct2, THEN conjunct2, THEN conjunct2, THEN conjunct2, THEN conjunct1] k pb(2) f(2) i(2) by blast
  have r8: "gate_state ?ro = GATE_OPEN" "read_gate_state ?ro = GATE_OPEN"
    using t3 [THEN conjunct2, THEN conjunct2, THEN conjunct2, THEN conjunct2, THEN conjunct2, THEN conjunct2, THEN conjunct2, THEN conjunct2, THEN conjunct2, THEN conjunct2, THEN conjunct2, THEN conjunct2, THEN conjunct2, THEN conjunct2, THEN conjunct1] r6 by blast+
  have r9: "gate_state ?rc = GATE_CLOSED" "read_gate_state ?rc = GATE_CLOSED"
    using t4 [THEN conjunct2, THEN conjunct2, THEN conjunct2, THEN conjunct2, THEN conjunct2, THEN conjunct2, THEN conjunct2, THEN conjunct2, THEN conjunct2, THEN conjunct2, THEN conjunct2, THEN conjunct2, THEN conjunct2, THEN conjunct2, THEN conjunct2] r7 by blast+
  have r10: "\<exists>z. stopped_by_press ?xo = emergency_stop z \<and> gate_state z = GATE_OPENING"
    using t3 [THEN conjunct2, THEN conjunct2, THEN conjunct2, THEN conjunct2, THEN conjunct2, THEN conjunct2, THEN conjunct2, THEN conjunct2, THEN conjunct2, THEN conjunct2, THEN conjunct2, THEN conjunct2, THEN conjunct1] pb(1) f(1) i(1) by blast
  have r11: "\<exists>z. stopped_by_press ?xc = emergency_stop z \<and> gate_state z = GATE_CLOSING"
    using t4 [THEN conjunct2, THEN conjunct2, THEN conjunct2, THEN conjunct2, THEN conjunct2, THEN conjunct2, THEN conjunct2, THEN conjunct2, THEN conjunct2, THEN conjunct2, THEN conjunct2, THEN conjunct2, THEN conjunct2, THEN conjunct1] pb(2) f(2) i(2) by blast
  from nq r1 r2 pq r3 e(1) r4 e(2) r5 k pb(1) f(1) i(1) r6 r8 pb(2) f(2) i(2) r7 r9 r10 r11
  show ?thesis by (intro conjI)
qed


subsection \<open>Toggle\<close>

text \<open>
  C1. \<^verbatim>\<open>toggle_gate\<close> first services the watchdog and zeroes IdleTimer and
  ResetScheduledFlag, whatever GateState is. From Closed or Closing it then runs the
  open-motion routine, from Open or Opening the close-motion routine. The open-motion
  routine enters its window with GateState Opening, the close-motion routine with
  GateState Closing, each with MovingFlag set and the two flags still zero.
\<close>

theorem toggle_gate_flips:
  "(gate_state s = GATE_CLOSED \<longrightarrow>
      toggle_gate irqs s =
        open_gate irqs (uart_tx_string_P (''Gate currently closed, opening'' @ crlf) (serviced s))) \<and>
   (gate_state s = GATE_CLOSING \<longrightarrow>
      toggle_gate irqs s =
        open_gate irqs
          (uart_tx_string_P (''Gate currently closing, changing direction to opening'' @ crlf)
             (serviced s))) \<and>
   (gate_state s = GATE_OPEN \<longrightarrow>
      toggle_gate irqs s =
        close_gate irqs (uart_tx_string_P (''Gate currently open, closing'' @ crlf) (serviced s))) \<and>
   (gate_state s = GATE_OPENING \<longrightarrow>
      toggle_gate irqs s =
        close_gate irqs
          (uart_tx_string_P (''Gate currently opening, changing direction to closing'' @ crlf)
             (serviced s))) \<and>
   idle_timer_ms (serviced s) = 0 \<and> reset_scheduled (serviced s) = 0 \<and>
   open_gate irqs sp =
     (case motion_window irqs 0 (open_gate_begin sp) of
        None \<Rightarrow> None
      | Some (completed, s1) \<Rightarrow> Some (if completed then open_gate_finish s1 else s1)) \<and>
   close_gate irqs sp =
     (case motion_window irqs 0 (close_gate_begin sp) of
        None \<Rightarrow> None
      | Some (completed, s1) \<Rightarrow> Some (if completed then close_gate_finish s1 else s1)) \<and>
   gate_state (open_gate_begin sp) = GATE_OPENING \<and> gate_moving (open_gate_begin sp) = 1 \<and>
   idle_timer_ms (open_gate_begin sp) = 0 \<and> reset_scheduled (open_gate_begin sp) = 0 \<and>
   gate_state (close_gate_begin sp) = GATE_CLOSING \<and> gate_moving (close_gate_begin sp) = 1 \<and>
   idle_timer_ms (close_gate_begin sp) = 0 \<and> reset_scheduled (close_gate_begin sp) = 0"
  by (simp add: toggle_gate_def serviced_def Let_def reset_watchdog_def uart_tx_string_P_def
      open_gate_begin_fields close_gate_begin_fields open_gate_def close_gate_def)

theorem toggle_gate_flips_witness:
  "gate_state (power_on (\<lambda>a. GATE_CLOSED)) = GATE_CLOSED \<and>
   toggle_gate quiet (power_on (\<lambda>a. GATE_CLOSED)) =
     open_gate quiet (uart_tx_string_P (''Gate currently closed, opening'' @ crlf)
                        (serviced (power_on (\<lambda>a. GATE_CLOSED)))) \<and>
   gate_state ((power_on (\<lambda>a. GATE_CLOSED))\<lparr>gate_state := GATE_CLOSING\<rparr>) = GATE_CLOSING \<and>
   toggle_gate quiet ((power_on (\<lambda>a. GATE_CLOSED))\<lparr>gate_state := GATE_CLOSING\<rparr>) =
     open_gate quiet
       (uart_tx_string_P (''Gate currently closing, changing direction to opening'' @ crlf)
          (serviced ((power_on (\<lambda>a. GATE_CLOSED))\<lparr>gate_state := GATE_CLOSING\<rparr>))) \<and>
   gate_state ((power_on (\<lambda>a. GATE_OPEN))\<lparr>gate_state := GATE_OPEN\<rparr>) = GATE_OPEN \<and>
   toggle_gate quiet ((power_on (\<lambda>a. GATE_OPEN))\<lparr>gate_state := GATE_OPEN\<rparr>) =
     close_gate quiet (uart_tx_string_P (''Gate currently open, closing'' @ crlf)
                         (serviced ((power_on (\<lambda>a. GATE_OPEN))\<lparr>gate_state := GATE_OPEN\<rparr>))) \<and>
   gate_state ((power_on (\<lambda>a. GATE_OPEN))\<lparr>gate_state := GATE_OPENING\<rparr>) = GATE_OPENING \<and>
   toggle_gate quiet ((power_on (\<lambda>a. GATE_OPEN))\<lparr>gate_state := GATE_OPENING\<rparr>) =
     close_gate quiet
       (uart_tx_string_P (''Gate currently opening, changing direction to closing'' @ crlf)
          (serviced ((power_on (\<lambda>a. GATE_OPEN))\<lparr>gate_state := GATE_OPENING\<rparr>)))"
  using toggle_gate_flips [of "power_on (\<lambda>a. GATE_CLOSED)" quiet]
    toggle_gate_flips [of "(power_on (\<lambda>a. GATE_CLOSED))\<lparr>gate_state := GATE_CLOSING\<rparr>" quiet]
    toggle_gate_flips [of "(power_on (\<lambda>a. GATE_OPEN))\<lparr>gate_state := GATE_OPEN\<rparr>" quiet]
    toggle_gate_flips [of "(power_on (\<lambda>a. GATE_OPEN))\<lparr>gate_state := GATE_OPENING\<rparr>" quiet]
  by (simp add: power_on_def)

subsection \<open>Button interrupt\<close>

text \<open>
  C7. If the button line reads high again when it is sampled after the 250 ms debounce
  delay, the handler returns with every variable, port and EEPROM cell as it was; only
  the delay and one watchdog service are on the trace. If the line reads low at that
  sample and is released at some later read, the handler returns with IdleTimer and
  ResetScheduledFlag zero; when MovingFlag was set the result is that of the emergency
  stop, with MotionFlag as it was and all outputs low; otherwise MotionFlag is 1 and
  GateState, the ports and the EEPROM are untouched. For as long as the line stays low
  the handler polls it and does not return.
\<close>

theorem INT0_vect_debounce:
  "(pind 0 AND bv BUTTON_PIN \<noteq> 0 \<longrightarrow>
      INT0_vect pind s = Some (s\<lparr>trace := trace s @ [DelayMs BUTTON_DEBOUNCE_DELAY, WdtReset]\<rparr>)) \<and>
   (pind 0 AND bv BUTTON_PIN = 0 \<and> 0 < n \<and> pind n AND bv BUTTON_PIN \<noteq> 0 \<longrightarrow>
      (\<exists>s'. INT0_vect pind s = Some s' \<and>
            idle_timer_ms s' = 0 \<and> reset_scheduled s' = 0 \<and> gate_moving s' = 0 \<and>
            (gate_moving s \<noteq> 0 \<longrightarrow>
               (\<exists>j<n. s' = emergency_stop
                             ((polled j (reset_watchdog (delay_ms BUTTON_DEBOUNCE_DELAY s)))
                                \<lparr>idle_timer_ms := 0, reset_scheduled := 0\<rparr>)) \<and>
               button_pressed s' = button_pressed s \<and> outputs_off s') \<and>
            (gate_moving s = 0 \<longrightarrow>
               (\<exists>j<n. s' = (polled j (reset_watchdog (delay_ms BUTTON_DEBOUNCE_DELAY s)))
                              \<lparr>idle_timer_ms := 0, reset_scheduled := 0, button_pressed := 1\<rparr>) \<and>
               button_pressed s' = 1 \<and> gate_state s' = gate_state s \<and>
               PORTB s' = PORTB s \<and> PORTD s' = PORTD s \<and> eeprom s' = eeprom s))) \<and>
   ((\<forall>k. pind k AND bv BUTTON_PIN = 0) \<longrightarrow> INT0_vect pind s = None)"
proof (intro conjI impI)
  assume "\<forall>k. pind k AND bv BUTTON_PIN = 0"
  then show "INT0_vect pind s = None" by (rule INT0_vect_held_forever)
next
  assume "pind 0 AND bv BUTTON_PIN \<noteq> 0"
  then show "INT0_vect pind s = Some (s\<lparr>trace := trace s @ [DelayMs BUTTON_DEBOUNCE_DELAY, WdtReset]\<rparr>)"
    by (simp add: INT0_vect_no_press prim_defs)
next
  assume a: "pind 0 AND bv BUTTON_PIN = 0 \<and> 0 < n \<and> pind n AND bv BUTTON_PIN \<noteq> 0"
  let ?d = "reset_watchdog (delay_ms BUTTON_DEBOUNCE_DELAY s)"
  from a INT0_vect_press [of pind n s]
  obtain j where j: "j < n"
    and r: "INT0_vect pind s =
           Some (if gate_moving s \<noteq> 0
                 then emergency_stop ((polled j ?d)\<lparr>idle_timer_ms := 0, reset_scheduled := 0\<rparr>)
                 else (polled j ?d)\<lparr>idle_timer_ms := 0, reset_scheduled := 0, button_pressed := 1\<rparr>)"
    by blast
  show "\<exists>s'. INT0_vect pind s = Some s' \<and>
            idle_timer_ms s' = 0 \<and> reset_scheduled s' = 0 \<and> gate_moving s' = 0 \<and>
            (gate_moving s \<noteq> 0 \<longrightarrow>
               (\<exists>j<n. s' = emergency_stop
                             ((polled j ?d)\<lparr>idle_timer_ms := 0, reset_scheduled := 0\<rparr>)) \<and>
               button_pressed s' = button_pressed s \<and> outputs_off s') \<and>
            (gate_moving s = 0 \<longrightarrow>
               (\<exists>j<n. s' = (polled j ?d)
                              \<lparr>idle_timer_ms := 0, reset_scheduled := 0, button_pressed := 1\<rparr>) \<and>
               button_pressed s' = 1 \<and> gate_state s' = gate_state s \<and>
               PORTB s' = PORTB s \<and> PORTD s' = PORTD s \<and> eeprom s' = eeprom s)"
  proof (cases "gate_moving s = 0")
    case True
    with r j show ?thesis by (auto simp: to_emit)
  next
    case False
    with r j show ?thesis
      by (auto simp: to_emit emergency_stop_fields emergency_stop_outputs_off)
  qed
qed

theorem INT0_vect_debounce_witness:
  "bounce 0 AND bv BUTTON_PIN \<noteq> 0 \<and>
   INT0_vect bounce (power_on (\<lambda>a. GATE_CLOSED))
     = Some ((power_on (\<lambda>a. GATE_CLOSED))
               \<lparr>trace := trace (power_on (\<lambda>a. GATE_CLOSED)) @ [DelayMs BUTTON_DEBOUNCE_DELAY, WdtReset]\<rparr>) \<and>
   press 0 AND bv BUTTON_PIN = 0 \<and> (0::nat) < 1 \<and> press 1 AND bv BUTTON_PIN \<noteq> 0 \<and>
   gate_moving (power_on (\<lambda>a. GATE_CLOSED)) = 0 \<and>
   (\<exists>s'. INT0_vect press (power_on (\<lambda>a. GATE_CLOSED)) = Some s' \<and> button_pressed s' = 1 \<and>
         idle_timer_ms s' = 0 \<and> reset_scheduled s' = 0 \<and> gate_state s' = GATE_CLOSED) \<and>
   gate_moving (open_gate_begin (power_on (\<lambda>a. GATE_CLOSED))) \<noteq> 0 \<and>
   (\<exists>s'. INT0_vect press (open_gate_begin (power_on (\<lambda>a. GATE_CLOSED))) = Some s' \<and>
         button_pressed s' = 0 \<and> gate_moving s' = 0 \<and> outputs_off s') \<and>
   (\<forall>k. held k AND bv BUTTON_PIN = 0) \<and>
   INT0_vect held (power_on (\<lambda>a. GATE_CLOSED)) = None"
proof -
  let ?c = "power_on (\<lambda>a. GATE_CLOSED)"
  have b: "bounce 0 AND bv BUTTON_PIN \<noteq> 0" by (simp add: bounce_def bv_def)
  have p: "press 0 AND bv BUTTON_PIN = 0" "(0::nat) < 1" "press 1 AND bv BUTTON_PIN \<noteq> 0"
    by (simp_all add: press_def bv_def)
  have i: "gate_moving ?c = 0" "gate_state ?c = GATE_CLOSED" by (simp_all add: power_on_def)
  have m: "gate_moving (open_gate_begin ?c) \<noteq> 0" "button_pressed (open_gate_begin ?c) = 0"
    by (simp_all add: open_gate_begin_fields power_on_def)
  have r1: "INT0_vect bounce ?c
     = Some (?c\<lparr>trace := trace ?c @ [DelayMs BUTTON_DEBOUNCE_DELAY, WdtReset]\<rparr>)"
    using INT0_vect_debounce [of bounce ?c 1] b by blast
  have r2: "\<exists>s'. INT0_vect press ?c = Some s' \<and> button_pressed s' = 1 \<and>
         idle_timer_ms s' = 0 \<and> reset_scheduled s' = 0 \<and> gate_state s' = GATE_CLOSED"
    using INT0_vect_debounce [of press ?c 1] p i by auto
  have r3: "\<exists>s'. INT0_vect press (open_gate_begin ?c) = Some s' \<and>
         button_pressed s' = 0 \<and> gate_moving s' = 0 \<and> outputs_off s'"
    using INT0_vect_debounce [of press "open_gate_begin ?c" 1] p m by auto
  have f: "\<forall>k. held k AND bv BUTTON_PIN = 0" by (simp add: held_def)
  have r4: "INT0_vect held ?c = None"
    using INT0_vect_debounce [of held ?c 1] f by blast
  from b r1 p i(1) r2 m(1) r3 f r4 show ?thesis by (intro conjI)
qed

subsection \<open>Boot\<close>







subsection \<open>Alternation\<close>

lemma state_sequence_append [simp]:
  "state_sequence (a @ b) = state_sequence a @ state_sequence b"
  by (simp add: state_sequence_def)

lemma state_sequence_quanta [simp]: "state_sequence (window_quanta n) = []"
  by (induction n) (simp_all add: window_quanta_def state_sequence_def)

lemma state_sequence_write:
  "state_sequence (trace (write_gate_state st s)) = state_sequence (trace s)"
  by (simp add: write_gate_state_def eeprom_write_byte_def state_sequence_def)

lemma state_sequence_finish:
  "state_sequence (trace (open_gate_finish s)) = state_sequence (trace s) @ [GATE_OPEN]"
  "state_sequence (trace (close_gate_finish s)) = state_sequence (trace s) @ [GATE_CLOSED]"
  by (simp_all add: open_gate_finish_def close_gate_finish_def Let_def report_state_def to_emit
      state_sequence_write stop_gate_fields, simp_all add: state_sequence_def)

lemma state_sequence_begin:
  "state_sequence (trace (open_gate_begin s)) = state_sequence (trace s) @ [GATE_OPENING]"
  "state_sequence (trace (close_gate_begin s)) = state_sequence (trace s) @ [GATE_CLOSING]"
  by (simp_all add: open_gate_begin_fields close_gate_begin_fields, simp_all add: state_sequence_def)

lemma quiet_all: "\<forall>k<3000. quiet (10 * k) = no_irq"
  by (simp add: quiet_def)

lemma toggle_quiet_closed:
  assumes "gate_state s = GATE_CLOSED"
  shows "\<exists>s'. toggle_gate quiet s = Some s' \<and> gate_state s' = GATE_OPEN \<and> gate_moving s' = 0 \<and>
              read_gate_state s' = GATE_OPEN \<and> outputs_off s' \<and>
              idle_timer_ms s' = 0 \<and> reset_scheduled s' = 0 \<and>
              button_pressed s' = button_pressed s \<and>
              state_sequence (trace s') = state_sequence (trace s) @ [GATE_OPENING, GATE_OPEN]"
proof -
  let ?p = "uart_tx_string_P (''Gate currently closed, opening'' @ crlf) (serviced s)"
  let ?r = "open_gate_finish (polled 3000 (open_gate_begin ?p))"
  have "toggle_gate quiet s = open_gate quiet ?p"
    using assms
    by (simp add: toggle_gate_def serviced_def Let_def reset_watchdog_def uart_tx_string_P_def)
  then have "toggle_gate quiet s = Some ?r"
    by (simp add: open_gate_completes [OF quiet_all])
  moreover have "state_sequence (trace ?r) = state_sequence (trace s) @ [GATE_OPENING, GATE_OPEN]"
    by (simp add: state_sequence_finish state_sequence_begin,
        simp add: serviced_def to_emit state_sequence_def)
  ultimately show ?thesis
    by (simp add: open_gate_finish_fields open_gate_begin_fields serviced_def to_emit)
qed

lemma toggle_quiet_open:
  assumes "gate_state s = GATE_OPEN"
  shows "\<exists>s'. toggle_gate quiet s = Some s' \<and> gate_state s' = GATE_CLOSED \<and> gate_moving s' = 0 \<and>
              read_gate_state s' = GATE_CLOSED \<and> outputs_off s' \<and>
              idle_timer_ms s' = 0 \<and> reset_scheduled s' = 0 \<and>
              button_pressed s' = button_pressed s \<and>
              state_sequence (trace s') = state_sequence (trace s) @ [GATE_CLOSING, GATE_CLOSED]"
proof -
  let ?p = "uart_tx_string_P (''Gate currently open, closing'' @ crlf) (serviced s)"
  let ?r = "close_gate_finish (polled 3000 (close_gate_begin ?p))"
  have "toggle_gate quiet s = close_gate quiet ?p"
    using assms
    by (simp add: toggle_gate_def serviced_def Let_def reset_watchdog_def uart_tx_string_P_def)
  then have "toggle_gate quiet s = Some ?r"
    by (simp add: close_gate_completes [OF quiet_all])
  moreover have "state_sequence (trace ?r) = state_sequence (trace s) @ [GATE_CLOSING, GATE_CLOSED]"
    by (simp add: state_sequence_finish state_sequence_begin,
        simp add: serviced_def to_emit state_sequence_def)
  ultimately show ?thesis
    by (simp add: close_gate_finish_fields close_gate_begin_fields serviced_def to_emit)
qed

lemma toggles_alternate:
  assumes "gate_state s = GATE_CLOSED \<or> gate_state s = GATE_OPEN"
  shows "\<exists>s'. toggles n s = Some s' \<and>
              gate_state s' = (if even n then gate_state s else other_rest (gate_state s)) \<and>
              (0 < n \<longrightarrow> gate_moving s' = 0 \<and> read_gate_state s' = gate_state s' \<and> outputs_off s') \<and>
              state_sequence (trace s') = state_sequence (trace s) @ alternation (gate_state s) n"
  using assms
proof (induction n arbitrary: s)
  case 0
  then show ?case by simp
next
  case (Suc n)
  from Suc.prems show ?case
  proof
    assume c: "gate_state s = GATE_CLOSED"
    from toggle_quiet_closed [OF c] obtain s1 where
      t: "toggle_gate quiet s = Some s1" and g: "gate_state s1 = GATE_OPEN"
      and r: "gate_moving s1 = 0" "read_gate_state s1 = GATE_OPEN" "outputs_off s1"
      and q: "state_sequence (trace s1) = state_sequence (trace s) @ [GATE_OPENING, GATE_OPEN]"
      by blast
    from g have "gate_state s1 = GATE_CLOSED \<or> gate_state s1 = GATE_OPEN" by simp
    from Suc.IH [OF this] obtain s' where
      "toggles n s1 = Some s'"
      "gate_state s' = (if even n then gate_state s1 else other_rest (gate_state s1))"
      "0 < n \<longrightarrow> gate_moving s' = 0 \<and> read_gate_state s' = gate_state s' \<and> outputs_off s'"
      "state_sequence (trace s') = state_sequence (trace s1) @ alternation (gate_state s1) n"
      by blast
    with t g r q c show ?thesis
      by (cases "n = 0") (auto simp: other_rest_def)
  next
    assume c: "gate_state s = GATE_OPEN"
    from toggle_quiet_open [OF c] obtain s1 where
      t: "toggle_gate quiet s = Some s1" and g: "gate_state s1 = GATE_CLOSED"
      and r: "gate_moving s1 = 0" "read_gate_state s1 = GATE_CLOSED" "outputs_off s1"
      and q: "state_sequence (trace s1) = state_sequence (trace s) @ [GATE_CLOSING, GATE_CLOSED]"
      by blast
    from g have "gate_state s1 = GATE_CLOSED \<or> gate_state s1 = GATE_OPEN" by simp
    from Suc.IH [OF this] obtain s' where
      "toggles n s1 = Some s'"
      "gate_state s' = (if even n then gate_state s1 else other_rest (gate_state s1))"
      "0 < n \<longrightarrow> gate_moving s' = 0 \<and> read_gate_state s' = gate_state s' \<and> outputs_off s'"
      "state_sequence (trace s') = state_sequence (trace s1) @ alternation (gate_state s1) n"
      by blast
    with t g r q c show ?thesis
      by (cases "n = 0") (auto simp: other_rest_def)
  qed
qed

text \<open>
  C4. Starting from a resting state, any number \<open>n\<close> of toggles, each followed by an
  undisturbed full motion window, all return, and the states the gate goes through
  alternate strictly: from Closed they are Opening, Open, Closing, Closed, and so on
  (from Open the same cycle entered at Closing); the gate rests in the starting state
  after an even number of toggles and in the other resting state after an odd number.
  In particular two toggle-and-complete steps from a resting state lead back to it, in
  GateState and in the store.
\<close>

theorem toggles_alternate_strictly:
  assumes "gate_state s = GATE_CLOSED \<or> gate_state s = GATE_OPEN"
  shows "(\<exists>s'. toggles n s = Some s' \<and>
               gate_state s' = (if even n then gate_state s else other_rest (gate_state s)) \<and>
               state_sequence (trace s') = state_sequence (trace s) @ alternation (gate_state s) n) \<and>
         (\<exists>s1 s2. toggle_gate quiet s = Some s1 \<and> toggle_gate quiet s1 = Some s2 \<and>
               gate_state s1 = other_rest (gate_state s) \<and>
               read_gate_state s1 = other_rest (gate_state s) \<and>
               gate_state s2 = gate_state s \<and> read_gate_state s2 = gate_state s \<and>
               gate_moving s1 = 0 \<and> gate_moving s2 = 0)"
proof -
  from toggles_alternate [OF assms, of n]
  have a: "\<exists>s'. toggles n s = Some s' \<and>
               gate_state s' = (if even n then gate_state s else other_rest (gate_state s)) \<and>
               state_sequence (trace s') = state_sequence (trace s) @ alternation (gate_state s) n"
    by blast
  have b: "\<exists>s1 s2. toggle_gate quiet s = Some s1 \<and> toggle_gate quiet s1 = Some s2 \<and>
               gate_state s1 = other_rest (gate_state s) \<and>
               read_gate_state s1 = other_rest (gate_state s) \<and>
               gate_state s2 = gate_state s \<and> read_gate_state s2 = gate_state s \<and>
               gate_moving s1 = 0 \<and> gate_moving s2 = 0"
    using assms
  proof
    assume c: "gate_state s = GATE_CLOSED"
    from toggle_quiet_closed [OF c] obtain s1 where
      1: "toggle_gate quiet s = Some s1" "gate_state s1 = GATE_OPEN" "gate_moving s1 = 0"
         "read_gate_state s1 = GATE_OPEN"
      by blast
    from toggle_quiet_open [OF 1(2)] obtain s2 where
      2: "toggle_gate quiet s1 = Some s2" "gate_state s2 = GATE_CLOSED" "gate_moving s2 = 0"
         "read_gate_state s2 = GATE_CLOSED"
      by blast
    from c 1 2 show ?thesis by (simp add: other_rest_def)
  next
    assume c: "gate_state s = GATE_OPEN"
    from toggle_quiet_open [OF c] obtain s1 where
      1: "toggle_gate quiet s = Some s1" "gate_state s1 = GATE_CLOSED" "gate_moving s1 = 0"
         "read_gate_state s1 = GATE_CLOSED"
      by blast
    from toggle_quiet_closed [OF 1(2)] obtain s2 where
      2: "toggle_gate quiet s1 = Some s2" "gate_state s2 = GATE_OPEN" "gate_moving s2 = 0"
         "read_gate_state s2 = GATE_OPEN"
      by blast
    from c 1 2 show ?thesis by (simp add: other_rest_def)
  qed
  from a b show ?thesis by (rule conjI)
qed

theorem toggles_alternate_strictly_witness:
  "(gate_state (power_on (\<lambda>a. GATE_CLOSED)) = GATE_CLOSED \<or>
    gate_state (power_on (\<lambda>a. GATE_CLOSED)) = GATE_OPEN) \<and>
   (\<exists>s'. toggles 3 (power_on (\<lambda>a. GATE_CLOSED)) = Some s' \<and> gate_state s' = GATE_OPEN \<and>
         state_sequence (trace s') =
           [GATE_OPENING, GATE_OPEN, GATE_CLOSING, GATE_CLOSED, GATE_OPENING, GATE_OPEN]) \<and>
   (\<exists>s1 s2. toggle_gate quiet (power_on (\<lambda>a. GATE_CLOSED)) = Some s1 \<and>
         toggle_gate quiet s1 = Some s2 \<and> gate_state s1 = GATE_OPEN \<and>
         gate_state s2 = GATE_CLOSED \<and> read_gate_state s2 = GATE_CLOSED)"
proof -
  let ?c = "power_on (\<lambda>a. GATE_CLOSED)"
  have h: "gate_state ?c = GATE_CLOSED \<or> gate_state ?c = GATE_OPEN" by (simp add: power_on_def)
  have g: "gate_state ?c = GATE_CLOSED" "trace ?c = []" by (simp_all add: power_on_def)
  have alt: "alternation GATE_CLOSED 3 =
      [GATE_OPENING, GATE_OPEN, GATE_CLOSING, GATE_CLOSED, GATE_OPENING, GATE_OPEN]"
    by (simp add: numeral_3_eq_3)
  note t = toggles_alternate_strictly [OF h, of 3]
  have a: "\<exists>s'. toggles 3 ?c = Some s' \<and> gate_state s' = GATE_OPEN \<and>
         state_sequence (trace s') =
           [GATE_OPENING, GATE_OPEN, GATE_CLOSING, GATE_CLOSED, GATE_OPENING, GATE_OPEN]"
    using t by (simp add: g alt other_rest_def state_sequence_def)
  have b: "\<exists>s1 s2. toggle_gate quiet ?c = Some s1 \<and>
         toggle_gate quiet s1 = Some s2 \<and> gate_state s1 = GATE_OPEN \<and>
         gate_state s2 = GATE_CLOSED \<and> read_gate_state s2 = GATE_CLOSED"
    using t by (auto simp: g other_rest_def)
  from h a b show ?thesis by (intro conjI)
qed

subsection \<open>Reset supervisor\<close>

lemma waited_fields [simp]:
  "gate_state (waited s) = gate_state s"
  "gate_moving (waited s) = gate_moving s"
  "button_pressed (waited s) = button_pressed s"
  "reset_scheduled (waited s) = reset_scheduled s"
  "idle_timer_ms (waited s) = idle_timer_ms s + 1"
  "eeprom (waited s) = eeprom s"
  "PORTB (waited s) = PORTB s"
  "PORTD (waited s) = PORTD s"
  "trace (waited s) = trace s @ [DelayMs 1]"
  by (simp_all add: waited_def to_emit)

lemma idle_succ:
  fixes x :: uint32_t
  assumes "unat x < 4294967295"
  shows "unat (x + 1) = unat x + 1"
  using assms by (simp add: unat_word_ariths)

lemma main_iteration_after_toggle:
  assumes "(if button_pressed s \<noteq> 0
            then toggle_gate irqs ((reset_watchdog s)\<lparr>button_pressed := 0\<rparr>)
            else Some (reset_watchdog s)) = Some t"
    and "irq (delay_ms 1 t) = Some u" and "gate_moving u = 0"
  shows "main_iteration irqs irq (s, c) =
           (if c + 1 \<ge> 1000 then
              (case supervisor_check (u\<lparr>idle_timer_ms := idle_timer_ms u + 1\<rparr>) of
                 AwaitReset h \<Rightarrow> Some (AwaitReset h)
               | Running s1 \<Rightarrow> Some (Running (s1, 0)))
            else Some (Running (u\<lparr>idle_timer_ms := idle_timer_ms u + 1\<rparr>, c + 1)))"
  using assms by (auto simp: main_iteration_def Let_def to_emit split: if_splits)

lemma main_iteration_idle:
  assumes "button_pressed s = 0" and "gate_moving s = 0"
  shows "main_iteration irqs no_irq (s, c) =
           (if c + 1 \<ge> 1000 then
              (case supervisor_check (waited (reset_watchdog s)) of
                 AwaitReset h \<Rightarrow> Some (AwaitReset h)
               | Running s1 \<Rightarrow> Some (Running (s1, 0)))
            else Some (Running (waited (reset_watchdog s), c + 1)))"
proof -
  have "main_iteration irqs no_irq (s, c) =
           (if c + 1 \<ge> 1000 then
              (case supervisor_check
                      ((delay_ms 1 (reset_watchdog s))
                         \<lparr>idle_timer_ms := idle_timer_ms (delay_ms 1 (reset_watchdog s)) + 1\<rparr>) of
                 AwaitReset h \<Rightarrow> Some (AwaitReset h)
               | Running s1 \<Rightarrow> Some (Running (s1, 0)))
            else Some (Running ((delay_ms 1 (reset_watchdog s))
                         \<lparr>idle_timer_ms := idle_timer_ms (delay_ms 1 (reset_watchdog s)) + 1\<rparr>, c + 1)))"
    using assms by (intro main_iteration_after_toggle) (simp_all add: to_emit)
  then show ?thesis by (simp add: waited_def to_emit)
qed

lemma supervisor_check_schedules:
  assumes "idle_timer_ms s \<ge> 21600000" and "gate_moving s = 0" and "reset_scheduled s = 0"
  shows "supervisor_check s = Running (schedule_reset s)"
    and "reset_scheduled (schedule_reset s) = 1"
    and "idle_timer_ms (schedule_reset s) = 0"
  using assms by (simp_all add: supervisor_check_def schedule_reset_def Let_def to_emit)

lemma supervisor_check_not_due:
  assumes "reset_scheduled s = 0" and "idle_timer_ms s < 21600000"
  shows "supervisor_check s = Running s"
  using assms by (simp add: supervisor_check_def Let_def not_le [symmetric])

lemma supervisor_check_resets:
  assumes "reset_scheduled s \<noteq> 0" and "idle_timer_ms s \<ge> 5000"
  shows "supervisor_check s = AwaitReset (perform_controlled_reset s)"
  using assms by (simp add: supervisor_check_def Let_def)

lemma perform_controlled_reset_fields:
  "eeprom (perform_controlled_reset s) EEPROM_RESET_FLAG = 1"
  "eeprom (perform_controlled_reset s) EEPROM_ADDR = eeprom s EEPROM_ADDR"
  "gate_moving (perform_controlled_reset s) = 0"
  "gate_state (perform_controlled_reset s) = gate_state s"
  "trace (perform_controlled_reset s) =
     trace s @ [Uart (''Performing controlled system reset'' @ crlf),
                EepromWrite EEPROM_RESET_FLAG 1, WdtEnable WDTO_15MS]"
  by (simp_all add: perform_controlled_reset_def Let_def to_emit eeprom_write_byte_def
      stop_gate_fields)

lemma perform_controlled_reset_outputs:
  "gate_moving s \<noteq> 0 \<Longrightarrow> outputs_off (perform_controlled_reset s)"
  "gate_moving s = 0 \<Longrightarrow> PORTB (perform_controlled_reset s) = PORTB s"
  "gate_moving s = 0 \<Longrightarrow> PORTD (perform_controlled_reset s) = PORTD s"
proof -
  assume "gate_moving s \<noteq> 0"
  then have "PORTB (perform_controlled_reset s) = PORTB (stop_gate s)"
    "PORTD (perform_controlled_reset s) = PORTD (stop_gate s)"
    by (simp_all add: perform_controlled_reset_def Let_def to_emit eeprom_write_byte_def
        stop_gate_def indicate_stop_def)
  from outputs_off_cong [OF this] show "outputs_off (perform_controlled_reset s)"
    by (simp add: stop_gate_outputs_off)
next
  assume "gate_moving s = 0"
  then show "PORTB (perform_controlled_reset s) = PORTB s"
    "PORTD (perform_controlled_reset s) = PORTD s"
    by (simp_all add: perform_controlled_reset_def Let_def to_emit eeprom_write_byte_def)
qed

lemma idle_run:
  assumes "button_pressed s = 0" and "gate_moving s = 0" and "reset_scheduled s = 0"
    and "unat (idle_timer_ms s) + n < 21600000"
  shows "\<exists>s' c'. main_loop n irqs (\<lambda>j. no_irq) (s, c) = Some (Running (s', c')) \<and>
           reset_scheduled s' = 0 \<and> gate_moving s' = 0 \<and> button_pressed s' = 0 \<and>
           gate_state s' = gate_state s \<and> idle_timer_ms s' = idle_timer_ms s + of_nat n"
  using assms
proof (induction n arbitrary: s c irqs)
  case 0
  then show ?case by simp
next
  case (Suc n)
  let ?t = "waited (reset_watchdog s)"
  from Suc.prems(4) have small: "unat (idle_timer_ms s) < 4294967295" by simp
  have up: "unat (idle_timer_ms ?t) = unat (idle_timer_ms s) + 1"
    by (simp add: idle_succ [OF small] to_emit)
  with Suc.prems(4) have "unat (idle_timer_ms ?t) < 21600000" by simp
  then have lt: "idle_timer_ms ?t < 21600000" by (simp add: word_less_nat_alt)
  have chk: "supervisor_check ?t = Running ?t"
    by (rule supervisor_check_not_due [OF _ lt]) (simp add: Suc.prems(3) to_emit)
  have "main_iteration (irqs 0) no_irq (s, c) =
          Some (Running (?t, if c + 1 \<ge> 1000 then 0 else c + 1))"
    using Suc.prems(1,2) by (simp add: main_iteration_idle chk)
  then obtain c1 where it: "main_iteration (irqs 0) no_irq (s, c) = Some (Running (?t, c1))"
    by blast
  have "\<exists>s' c'. main_loop n (\<lambda>j. irqs (Suc j)) (\<lambda>j. no_irq) (?t, c1) = Some (Running (s', c')) \<and>
           reset_scheduled s' = 0 \<and> gate_moving s' = 0 \<and> button_pressed s' = 0 \<and>
           gate_state s' = gate_state ?t \<and>
           idle_timer_ms s' = idle_timer_ms ?t + of_nat n"
    using Suc.prems up by (intro Suc.IH) (simp_all add: to_emit)
  then show ?case using it by (auto simp: algebra_simps to_emit)
qed

lemma INT0_vect_press_idle:
  "gate_moving s = 0 \<Longrightarrow>
     INT0_vect press s =
       Some ((reset_watchdog (delay_ms BUTTON_DEBOUNCE_DELAY s))
               \<lparr>idle_timer_ms := 0, reset_scheduled := 0, button_pressed := 1\<rparr>)"
  by (simp add: INT0_vect_def press_def bv_def wait_release_high Let_def to_emit)

lemma main_iteration_press_in_pass:
  assumes "button_pressed s = 0" and "gate_moving s = 0"
  shows "\<exists>s'. main_iteration irqs (INT0_vect press) (s, c)
                = Some (Running (s', if c + 1 \<ge> 1000 then 0 else c + 1)) \<and>
           reset_scheduled s' = 0 \<and> idle_timer_ms s' = 1 \<and> button_pressed s' = 1 \<and>
           gate_moving s' = 0 \<and> gate_state s' = gate_state s"
proof -
  let ?t = "reset_watchdog s"
  let ?u = "(reset_watchdog (delay_ms BUTTON_DEBOUNCE_DELAY (delay_ms 1 ?t)))
               \<lparr>idle_timer_ms := 0, reset_scheduled := 0, button_pressed := 1\<rparr>"
  let ?v = "?u\<lparr>idle_timer_ms := idle_timer_ms ?u + 1\<rparr>"
  have pre: "(if button_pressed s \<noteq> 0
            then toggle_gate irqs ((reset_watchdog s)\<lparr>button_pressed := 0\<rparr>)
            else Some (reset_watchdog s)) = Some ?t"
    using assms(1) by simp
  have isr: "INT0_vect press (delay_ms 1 ?t) = Some ?u"
    by (rule INT0_vect_press_idle) (simp add: assms(2) to_emit)
  have mv: "gate_moving ?u = 0" by (simp add: assms(2) to_emit)
  have chk: "supervisor_check ?v = Running ?v"
    by (rule supervisor_check_not_due) (simp_all add: to_emit)
  have "main_iteration irqs (INT0_vect press) (s, c) =
          Some (Running (?v, if c + 1 \<ge> 1000 then 0 else c + 1))"
    using main_iteration_after_toggle [of s irqs ?t "INT0_vect press" ?u c] pre isr mv chk
    by simp
  then show ?thesis using assms(2) by (auto simp: to_emit)
qed

lemma main_iteration_pending_press:
  assumes "button_pressed s \<noteq> 0" and "gate_state s = GATE_CLOSED \<or> gate_state s = GATE_OPEN"
  shows "\<exists>s'. main_iteration quiet no_irq (s, c)
                = Some (Running (s', if c + 1 \<ge> 1000 then 0 else c + 1)) \<and>
           reset_scheduled s' = 0 \<and> idle_timer_ms s' = 1 \<and> button_pressed s' = 0 \<and>
           gate_moving s' = 0 \<and> gate_state s' = other_rest (gate_state s)"
proof -
  let ?p = "(reset_watchdog s)\<lparr>button_pressed := 0\<rparr>"
  have "\<exists>t. toggle_gate quiet ?p = Some t \<and> gate_state t = other_rest (gate_state s) \<and>
          gate_moving t = 0 \<and> idle_timer_ms t = 0 \<and> reset_scheduled t = 0 \<and> button_pressed t = 0"
    using assms(2)
  proof
    assume "gate_state s = GATE_CLOSED"
    then have c: "gate_state ?p = GATE_CLOSED" by (simp add: to_emit)
    from toggle_quiet_closed [OF c] show ?thesis
      using \<open>gate_state s = GATE_CLOSED\<close> by (auto simp: other_rest_def to_emit)
  next
    assume "gate_state s = GATE_OPEN"
    then have c: "gate_state ?p = GATE_OPEN" by (simp add: to_emit)
    from toggle_quiet_open [OF c] show ?thesis
      using \<open>gate_state s = GATE_OPEN\<close> by (auto simp: other_rest_def to_emit)
  qed
  then obtain t where t: "toggle_gate quiet ?p = Some t"
    and f: "gate_state t = other_rest (gate_state s)" "gate_moving t = 0"
      "idle_timer_ms t = 0" "reset_scheduled t = 0" "button_pressed t = 0"
    by blast
  let ?u = "delay_ms 1 t"
  let ?v = "?u\<lparr>idle_timer_ms := idle_timer_ms ?u + 1\<rparr>"
  have pre: "(if button_pressed s \<noteq> 0
            then toggle_gate quiet ((reset_watchdog s)\<lparr>button_pressed := 0\<rparr>)
            else Some (reset_watchdog s)) = Some t"
    using assms(1) t by simp
  have mv: "gate_moving ?u = 0" by (simp add: f to_emit)
  have chk: "supervisor_check ?v = Running ?v"
    by (rule supervisor_check_not_due) (simp_all add: f to_emit)
  have "main_iteration quiet no_irq (s, c) =
          Some (Running (?v, if c + 1 \<ge> 1000 then 0 else c + 1))"
    using main_iteration_after_toggle [of s quiet t no_irq ?u c] pre mv chk
    by simp
  then show ?thesis using f by (auto simp: to_emit)
qed

lemma main_iteration_schedules:
  assumes "button_pressed s = 0" and "gate_moving s = 0" and "reset_scheduled s = 0"
    and "21599999 \<le> idle_timer_ms s" and "idle_timer_ms s < 4294967295"
  shows "\<exists>s'. main_iteration irqs no_irq (s, 999) = Some (Running (s', 0)) \<and>
           reset_scheduled s' = 1 \<and> idle_timer_ms s' = 0 \<and> gate_state s' = gate_state s"
proof -
  let ?t = "waited (reset_watchdog s)"
  from assms(5) have small: "unat (idle_timer_ms s) < 4294967295"
    by (simp add: word_less_nat_alt)
  from assms(4) have "21599999 \<le> unat (idle_timer_ms s)" by (simp add: word_le_nat_alt)
  then have "21600000 \<le> unat (idle_timer_ms s + 1)" by (simp add: idle_succ [OF small])
  then have due: "21600000 \<le> idle_timer_ms ?t" by (simp add: word_le_nat_alt to_emit)
  have "supervisor_check ?t = Running (schedule_reset ?t)"
    "reset_scheduled (schedule_reset ?t) = 1" "idle_timer_ms (schedule_reset ?t) = 0"
    by (rule supervisor_check_schedules [OF due]; simp add: assms to_emit)+
  moreover have "gate_state (schedule_reset ?t) = gate_state s"
    by (simp add: schedule_reset_def to_emit)
  ultimately show ?thesis using assms(1,2) by (simp add: main_iteration_idle)
qed

lemma main_iteration_resets:
  assumes "button_pressed s = 0" and "gate_moving s = 0" and "reset_scheduled s \<noteq> 0"
    and "4999 \<le> idle_timer_ms s" and "idle_timer_ms s < 4294967295"
  shows "main_iteration irqs no_irq (s, 999) =
           Some (AwaitReset (perform_controlled_reset (waited (reset_watchdog s))))"
proof -
  let ?t = "waited (reset_watchdog s)"
  from assms(5) have small: "unat (idle_timer_ms s) < 4294967295"
    by (simp add: word_less_nat_alt)
  from assms(4) have "4999 \<le> unat (idle_timer_ms s)" by (simp add: word_le_nat_alt)
  then have "5000 \<le> unat (idle_timer_ms s + 1)" by (simp add: idle_succ [OF small])
  then have due: "5000 \<le> idle_timer_ms ?t" by (simp add: word_le_nat_alt to_emit)
  have "supervisor_check ?t = AwaitReset (perform_controlled_reset ?t)"
    by (rule supervisor_check_resets [OF _ due]) (simp add: assms(3) to_emit)
  then show ?thesis using assms(1,2) by (simp add: main_iteration_idle)
qed

lemma main_loop_halts:
  "main_iteration (irqs 0) (irq 0) c = Some (AwaitReset h) \<Longrightarrow>
     main_loop (Suc n) irqs irq c = Some (AwaitReset h)"
  by simp

text \<open>
  C8. The periodic check runs in the pass of the main loop in which the pass counter
  reaches 1000. If at the check the idle time has reached 21600000 ms (six hours), the
  gate is not moving and no reset is scheduled, ResetScheduledFlag becomes 1 and the idle
  counter 0; in the main loop this is the pass entered with the counter at 999 and an idle
  time of at least 21599999 ms. The flag stays 0 at a check that finds the idle time
  below the threshold, and so it stays 0 when the timer is zeroed before the check: by a
  button press taken during that very pass, by a motion started in that pass from a
  pending press, and for every run of fewer than 21600000 idle passes counted from a
  zeroed timer.
\<close>

theorem reset_scheduling:
  "(21600000 \<le> idle_timer_ms s \<and> gate_moving s = 0 \<and> reset_scheduled s = 0 \<longrightarrow>
      supervisor_check s = Running (schedule_reset s) \<and>
      reset_scheduled (schedule_reset s) = 1 \<and> idle_timer_ms (schedule_reset s) = 0) \<and>
   (button_pressed s = 0 \<and> gate_moving s = 0 \<and> reset_scheduled s = 0 \<and>
    21599999 \<le> idle_timer_ms s \<and> idle_timer_ms s < 4294967295 \<longrightarrow>
      (\<exists>s'. main_iteration irqs no_irq (s, 999) = Some (Running (s', 0)) \<and>
            reset_scheduled s' = 1 \<and> idle_timer_ms s' = 0)) \<and>
   (reset_scheduled s = 0 \<and> idle_timer_ms s < 21600000 \<longrightarrow> supervisor_check s = Running s) \<and>
   (button_pressed s = 0 \<and> gate_moving s = 0 \<longrightarrow>
      (\<exists>s'. main_iteration irqs (INT0_vect press) (s, 999) = Some (Running (s', 0)) \<and>
            reset_scheduled s' = 0 \<and> idle_timer_ms s' = 1 \<and> button_pressed s' = 1)) \<and>
   (button_pressed s \<noteq> 0 \<and> (gate_state s = GATE_CLOSED \<or> gate_state s = GATE_OPEN) \<longrightarrow>
      (\<exists>s'. main_iteration quiet no_irq (s, 999) = Some (Running (s', 0)) \<and>
            reset_scheduled s' = 0 \<and> idle_timer_ms s' = 1 \<and>
            gate_state s' = other_rest (gate_state s))) \<and>
   (button_pressed s = 0 \<and> gate_moving s = 0 \<and> reset_scheduled s = 0 \<and>
    unat (idle_timer_ms s) + n < 21600000 \<longrightarrow>
      (\<exists>s' c'. main_loop n sched (\<lambda>j. no_irq) (s, c) = Some (Running (s', c')) \<and>
            reset_scheduled s' = 0 \<and> idle_timer_ms s' = idle_timer_ms s + of_nat n))"
proof (intro conjI impI)
  assume "21600000 \<le> idle_timer_ms s \<and> gate_moving s = 0 \<and> reset_scheduled s = 0"
  then show "supervisor_check s = Running (schedule_reset s)"
    "reset_scheduled (schedule_reset s) = 1" "idle_timer_ms (schedule_reset s) = 0"
    by (simp_all add: supervisor_check_schedules)
next
  assume "button_pressed s = 0 \<and> gate_moving s = 0 \<and> reset_scheduled s = 0 \<and>
    21599999 \<le> idle_timer_ms s \<and> idle_timer_ms s < 4294967295"
  then show "\<exists>s'. main_iteration irqs no_irq (s, 999) = Some (Running (s', 0)) \<and>
            reset_scheduled s' = 1 \<and> idle_timer_ms s' = 0"
    using main_iteration_schedules [of s irqs] by blast
next
  assume "reset_scheduled s = 0 \<and> idle_timer_ms s < 21600000"
  then show "supervisor_check s = Running s" by (simp add: supervisor_check_not_due)
next
  assume "button_pressed s = 0 \<and> gate_moving s = 0"
  then show "\<exists>s'. main_iteration irqs (INT0_vect press) (s, 999) = Some (Running (s', 0)) \<and>
            reset_scheduled s' = 0 \<and> idle_timer_ms s' = 1 \<and> button_pressed s' = 1"
    using main_iteration_press_in_pass [of s irqs 999] by auto
next
  assume "button_pressed s \<noteq> 0 \<and> (gate_state s = GATE_CLOSED \<or> gate_state s = GATE_OPEN)"
  then show "\<exists>s'. main_iteration quiet no_irq (s, 999) = Some (Running (s', 0)) \<and>
            reset_scheduled s' = 0 \<and> idle_timer_ms s' = 1 \<and>
            gate_state s' = other_rest (gate_state s)"
    using main_iteration_pending_press [of s 999] by auto
next
  assume "button_pressed s = 0 \<and> gate_moving s = 0 \<and> reset_scheduled s = 0 \<and>
    unat (idle_timer_ms s) + n < 21600000"
  then show "\<exists>s' c'. main_loop n sched (\<lambda>j. no_irq) (s, c) = Some (Running (s', c')) \<and>
            reset_scheduled s' = 0 \<and> idle_timer_ms s' = idle_timer_ms s + of_nat n"
    using idle_run [of s n sched c] by blast
qed

theorem reset_scheduling_witness:
  "21600000 \<le> idle_timer_ms ((power_on (\<lambda>a. GATE_CLOSED))\<lparr>idle_timer_ms := 21600000\<rparr>) \<and>
   gate_moving ((power_on (\<lambda>a. GATE_CLOSED))\<lparr>idle_timer_ms := 21600000\<rparr>) = 0 \<and>
   reset_scheduled ((power_on (\<lambda>a. GATE_CLOSED))\<lparr>idle_timer_ms := 21600000\<rparr>) = 0 \<and>
   supervisor_check ((power_on (\<lambda>a. GATE_CLOSED))\<lparr>idle_timer_ms := 21600000\<rparr>)
     = Running (schedule_reset ((power_on (\<lambda>a. GATE_CLOSED))\<lparr>idle_timer_ms := 21600000\<rparr>)) \<and>
   reset_scheduled (schedule_reset ((power_on (\<lambda>a. GATE_CLOSED))\<lparr>idle_timer_ms := 21600000\<rparr>)) = 1 \<and>
   button_pressed ((power_on (\<lambda>a. GATE_CLOSED))\<lparr>idle_timer_ms := 21599999\<rparr>) = 0 \<and>
   21599999 \<le> idle_timer_ms ((power_on (\<lambda>a. GATE_CLOSED))\<lparr>idle_timer_ms := 21599999\<rparr>) \<and>
   idle_timer_ms ((power_on (\<lambda>a. GATE_CLOSED))\<lparr>idle_timer_ms := 21599999\<rparr>) < 4294967295 \<and>
   (\<exists>s'. main_iteration quiet no_irq ((power_on (\<lambda>a. GATE_CLOSED))\<lparr>idle_timer_ms := 21599999\<rparr>, 999)
           = Some (Running (s', 0)) \<and> reset_scheduled s' = 1 \<and> idle_timer_ms s' = 0) \<and>
   idle_timer_ms (power_on (\<lambda>a. GATE_CLOSED)) < 21600000 \<and>
   supervisor_check (power_on (\<lambda>a. GATE_CLOSED)) = Running (power_on (\<lambda>a. GATE_CLOSED)) \<and>
   (\<exists>s'. main_iteration quiet (INT0_vect press)
            ((power_on (\<lambda>a. GATE_CLOSED))\<lparr>idle_timer_ms := 21599999\<rparr>, 999)
           = Some (Running (s', 0)) \<and> reset_scheduled s' = 0 \<and> button_pressed s' = 1) \<and>
   button_pressed ((power_on (\<lambda>a. GATE_CLOSED))\<lparr>idle_timer_ms := 21599999, button_pressed := 1\<rparr>) \<noteq> 0 \<and>
   gate_state ((power_on (\<lambda>a. GATE_CLOSED))\<lparr>idle_timer_ms := 21599999, button_pressed := 1\<rparr>)
     = GATE_CLOSED \<and>
   (\<exists>s'. main_iteration quiet no_irq
            ((power_on (\<lambda>a. GATE_CLOSED))\<lparr>idle_timer_ms := 21599999, button_pressed := 1\<rparr>, 999)
           = Some (Running (s', 0)) \<and> reset_scheduled s' = 0 \<and> gate_state s' = GATE_OPEN) \<and>
   unat (idle_timer_ms (power_on (\<lambda>a. GATE_CLOSED))) + 1000 < 21600000 \<and>
   (\<exists>s' c'. main_loop 1000 (\<lambda>j. quiet) (\<lambda>j. no_irq) (power_on (\<lambda>a. GATE_CLOSED), 0)
           = Some (Running (s', c')) \<and> reset_scheduled s' = 0 \<and> idle_timer_ms s' = 1000)"
proof -
  let ?c = "power_on (\<lambda>a. GATE_CLOSED)"
  let ?a = "?c\<lparr>idle_timer_ms := 21600000\<rparr>"
  let ?b = "?c\<lparr>idle_timer_ms := 21599999\<rparr>"
  let ?p = "?c\<lparr>idle_timer_ms := 21599999, button_pressed := 1\<rparr>"
  have ha: "21600000 \<le> idle_timer_ms ?a" "gate_moving ?a = 0" "reset_scheduled ?a = 0"
    by (simp_all add: power_on_def)
  have hb: "button_pressed ?b = 0" "gate_moving ?b = 0" "reset_scheduled ?b = 0"
    "21599999 \<le> idle_timer_ms ?b" "idle_timer_ms ?b < 4294967295"
    by (simp_all add: power_on_def)
  have hc: "reset_scheduled ?c = 0" "idle_timer_ms ?c < 21600000" "button_pressed ?c = 0"
    "gate_moving ?c = 0" "unat (idle_timer_ms ?c) + 1000 < 21600000" "idle_timer_ms ?c = 0"
    by (simp_all add: power_on_def)
  have hp: "button_pressed ?p \<noteq> 0" "gate_state ?p = GATE_CLOSED"
    by (simp_all add: power_on_def)
  have r1: "supervisor_check ?a = Running (schedule_reset ?a)"
    "reset_scheduled (schedule_reset ?a) = 1"
    using reset_scheduling [of ?a quiet 0 "\<lambda>j. quiet" 0] ha by blast+
  have r2: "\<exists>s'. main_iteration quiet no_irq (?b, 999) = Some (Running (s', 0)) \<and>
      reset_scheduled s' = 1 \<and> idle_timer_ms s' = 0"
    using reset_scheduling [of ?b quiet 0 "\<lambda>j. quiet" 0] hb by blast
  have r3: "supervisor_check ?c = Running ?c"
    using reset_scheduling [of ?c quiet 0 "\<lambda>j. quiet" 0] hc by blast
  have r4: "\<exists>s'. main_iteration quiet (INT0_vect press) (?b, 999) = Some (Running (s', 0)) \<and>
      reset_scheduled s' = 0 \<and> button_pressed s' = 1"
    using reset_scheduling [of ?b quiet 0 "\<lambda>j. quiet" 0] hb by blast
  have r5: "\<exists>s'. main_iteration quiet no_irq (?p, 999) = Some (Running (s', 0)) \<and>
      reset_scheduled s' = 0 \<and> gate_state s' = GATE_OPEN"
    using reset_scheduling [of ?p quiet 0 "\<lambda>j. quiet" 0] hp by (auto simp: other_rest_def)
  have r6: "\<exists>s' c'. main_loop 1000 (\<lambda>j. quiet) (\<lambda>j. no_irq) (?c, 0) = Some (Running (s', c')) \<and>
      reset_scheduled s' = 0 \<and> idle_timer_ms s' = 1000"
    using reset_scheduling [of ?c quiet 1000 "\<lambda>j. quiet" 0] hc by auto
  from ha r1 hb(1,4,5) r2 hc(2) r3 r4 hp r5 hc(5) r6 show ?thesis by (intro conjI)
qed

text \<open>
  C9. At a check that finds ResetScheduledFlag set and an idle time of at least 5000 ms
  the controlled reset is performed. It leaves MovingFlag false, with all outputs low
  if the gate was moving; it writes 1 to the reset marker cell and only then enables
  the watchdog with the 15 ms timeout, which is the last thing on the trace: the
  routine does not return, and the main loop makes no further pass, whatever interrupts
  are scheduled for later passes. The only other code that services the watchdog is the
  button handler, and a handler entered during the final busy-wait does so only after
  its 250 ms debounce delay, long after the 15 ms timeout. That the hardware then
  resets the processor is a property of the watchdog, not of the program.
\<close>

theorem controlled_reset_performed:
  "(reset_scheduled s \<noteq> 0 \<and> 5000 \<le> idle_timer_ms s \<longrightarrow>
      supervisor_check s = AwaitReset (perform_controlled_reset s)) \<and>
   (button_pressed s = 0 \<and> gate_moving s = 0 \<and> reset_scheduled s \<noteq> 0 \<and>
    4999 \<le> idle_timer_ms s \<and> idle_timer_ms s < 4294967295 \<and> irq 0 = no_irq \<longrightarrow>
      main_loop (Suc n) irqs irq (s, 999) =
        Some (AwaitReset (perform_controlled_reset (waited (reset_watchdog s))))) \<and>
   eeprom (perform_controlled_reset s) EEPROM_RESET_FLAG = 1 \<and>
   gate_moving (perform_controlled_reset s) = 0 \<and>
   (gate_moving s \<noteq> 0 \<longrightarrow> outputs_off (perform_controlled_reset s)) \<and>
   trace (perform_controlled_reset s) =
     trace s @ [Uart (''Performing controlled system reset'' @ crlf),
                EepromWrite EEPROM_RESET_FLAG 1, WdtEnable WDTO_15MS] \<and>
   (INT0_vect pind (perform_controlled_reset s) = Some s' \<longrightarrow>
      (\<exists>rest. trace s' = trace (perform_controlled_reset s)
                @ [DelayMs BUTTON_DEBOUNCE_DELAY, WdtReset] @ rest))"
proof (intro conjI impI)
  assume "INT0_vect pind (perform_controlled_reset s) = Some s'"
  then show "\<exists>rest. trace s' = trace (perform_controlled_reset s)
                @ [DelayMs BUTTON_DEBOUNCE_DELAY, WdtReset] @ rest"
    by (rule INT0_vect_service_delayed)
next
  assume "reset_scheduled s \<noteq> 0 \<and> 5000 \<le> idle_timer_ms s"
  then show "supervisor_check s = AwaitReset (perform_controlled_reset s)"
    by (simp add: supervisor_check_resets)
next
  assume a: "button_pressed s = 0 \<and> gate_moving s = 0 \<and> reset_scheduled s \<noteq> 0 \<and>
    4999 \<le> idle_timer_ms s \<and> idle_timer_ms s < 4294967295 \<and> irq 0 = no_irq"
  then have "main_iteration (irqs 0) (irq 0) (s, 999) =
        Some (AwaitReset (perform_controlled_reset (waited (reset_watchdog s))))"
    using main_iteration_resets [of s "irqs 0"] by simp
  then show "main_loop (Suc n) irqs irq (s, 999) =
        Some (AwaitReset (perform_controlled_reset (waited (reset_watchdog s))))"
    by (rule main_loop_halts)
next
  assume "gate_moving s \<noteq> 0"
  then show "outputs_off (perform_controlled_reset s)"
    by (rule perform_controlled_reset_outputs)
qed (use perform_controlled_reset_fields [of s] in simp_all)

theorem controlled_reset_performed_witness:
  "reset_scheduled ((power_on (\<lambda>a. GATE_CLOSED))\<lparr>reset_scheduled := 1, idle_timer_ms := 5000\<rparr>) \<noteq> 0 \<and>
   5000 \<le> idle_timer_ms ((power_on (\<lambda>a. GATE_CLOSED))\<lparr>reset_scheduled := 1, idle_timer_ms := 5000\<rparr>) \<and>
   supervisor_check ((power_on (\<lambda>a. GATE_CLOSED))\<lparr>reset_scheduled := 1, idle_timer_ms := 5000\<rparr>)
     = AwaitReset (perform_controlled_reset
         ((power_on (\<lambda>a. GATE_CLOSED))\<lparr>reset_scheduled := 1, idle_timer_ms := 5000\<rparr>)) \<and>
   button_pressed ((power_on (\<lambda>a. GATE_CLOSED))\<lparr>reset_scheduled := 1, idle_timer_ms := 4999\<rparr>) = 0 \<and>
   gate_moving ((power_on (\<lambda>a. GATE_CLOSED))\<lparr>reset_scheduled := 1, idle_timer_ms := 4999\<rparr>) = 0 \<and>
   reset_scheduled ((power_on (\<lambda>a. GATE_CLOSED))\<lparr>reset_scheduled := 1, idle_timer_ms := 4999\<rparr>) \<noteq> 0 \<and>
   4999 \<le> idle_timer_ms ((power_on (\<lambda>a. GATE_CLOSED))\<lparr>reset_scheduled := 1, idle_timer_ms := 4999\<rparr>) \<and>
   idle_timer_ms ((power_on (\<lambda>a. GATE_CLOSED))\<lparr>reset_scheduled := 1, idle_timer_ms := 4999\<rparr>)
     < 4294967295 \<and>
   (if (0::nat) = 0 then no_irq else INT0_vect press) = no_irq \<and>
   main_loop (Suc 7) (\<lambda>j. quiet) (\<lambda>j. if j = 0 then no_irq else INT0_vect press)
       ((power_on (\<lambda>a. GATE_CLOSED))\<lparr>reset_scheduled := 1, idle_timer_ms := 4999\<rparr>, 999)
     = Some (AwaitReset (perform_controlled_reset (waited (reset_watchdog
         ((power_on (\<lambda>a. GATE_CLOSED))\<lparr>reset_scheduled := 1, idle_timer_ms := 4999\<rparr>))))) \<and>
   gate_moving (open_gate_begin (power_on (\<lambda>a. GATE_CLOSED))) \<noteq> 0 \<and>
   outputs_off (perform_controlled_reset (open_gate_begin (power_on (\<lambda>a. GATE_CLOSED)))) \<and>
   gate_moving (perform_controlled_reset (open_gate_begin (power_on (\<lambda>a. GATE_CLOSED)))) = 0 \<and>
   eeprom (perform_controlled_reset (open_gate_begin (power_on (\<lambda>a. GATE_CLOSED))))
     EEPROM_RESET_FLAG = 1 \<and>
   INT0_vect bounce (perform_controlled_reset
       ((power_on (\<lambda>a. GATE_CLOSED))\<lparr>reset_scheduled := 1, idle_timer_ms := 5000\<rparr>))
     = Some (reset_watchdog (delay_ms BUTTON_DEBOUNCE_DELAY (perform_controlled_reset
         ((power_on (\<lambda>a. GATE_CLOSED))\<lparr>reset_scheduled := 1, idle_timer_ms := 5000\<rparr>)))) \<and>
   (\<exists>rest. trace (reset_watchdog (delay_ms BUTTON_DEBOUNCE_DELAY (perform_controlled_reset
         ((power_on (\<lambda>a. GATE_CLOSED))\<lparr>reset_scheduled := 1, idle_timer_ms := 5000\<rparr>))))
      = trace (perform_controlled_reset
         ((power_on (\<lambda>a. GATE_CLOSED))\<lparr>reset_scheduled := 1, idle_timer_ms := 5000\<rparr>))
        @ [DelayMs BUTTON_DEBOUNCE_DELAY, WdtReset] @ rest)"
proof -
  let ?c = "power_on (\<lambda>a. GATE_CLOSED)"
  let ?a = "?c\<lparr>reset_scheduled := 1, idle_timer_ms := 5000\<rparr>"
  let ?b = "?c\<lparr>reset_scheduled := 1, idle_timer_ms := 4999\<rparr>"
  let ?m = "open_gate_begin ?c"
  let ?irq = "\<lambda>j::nat. if j = 0 then no_irq else INT0_vect press"
  have ha: "reset_scheduled ?a \<noteq> 0" "5000 \<le> idle_timer_ms ?a"
    by (simp_all add: power_on_def)
  have hb: "button_pressed ?b = 0" "gate_moving ?b = 0" "reset_scheduled ?b \<noteq> 0"
    "4999 \<le> idle_timer_ms ?b" "idle_timer_ms ?b < 4294967295"
    by (simp_all add: power_on_def)
  have hi: "(if (0::nat) = 0 then no_irq else INT0_vect press) = no_irq" by simp
  have hm: "gate_moving ?m \<noteq> 0" by (simp add: open_gate_begin_fields)
  have r1: "supervisor_check ?a = AwaitReset (perform_controlled_reset ?a)"
    using controlled_reset_performed [of ?a ?irq 7 "\<lambda>j. quiet" bounce ?a] ha by blast
  have r2: "main_loop (Suc 7) (\<lambda>j. quiet) ?irq (?b, 999)
     = Some (AwaitReset (perform_controlled_reset (waited (reset_watchdog ?b))))"
    using controlled_reset_performed [of ?b ?irq 7 "\<lambda>j. quiet" bounce ?a] hb hi by blast
  have r3: "outputs_off (perform_controlled_reset ?m)"
    "gate_moving (perform_controlled_reset ?m) = 0"
    "eeprom (perform_controlled_reset ?m) EEPROM_RESET_FLAG = 1"
    using controlled_reset_performed [of ?m ?irq 7 "\<lambda>j. quiet" bounce ?a] hm by blast+
  let ?h = "perform_controlled_reset ?a"
  have hh: "INT0_vect bounce ?h = Some (reset_watchdog (delay_ms BUTTON_DEBOUNCE_DELAY ?h))"
    by (rule INT0_vect_no_press) (simp add: bounce_def bv_def)
  have r4: "\<exists>rest. trace (reset_watchdog (delay_ms BUTTON_DEBOUNCE_DELAY ?h))
      = trace ?h @ [DelayMs BUTTON_DEBOUNCE_DELAY, WdtReset] @ rest"
    using controlled_reset_performed [of ?a ?irq 7 "\<lambda>j. quiet" bounce
        "reset_watchdog (delay_ms BUTTON_DEBOUNCE_DELAY ?h)"] hh
    by blast
  from ha r1 hb hi r2 hm r3 hh r4 show ?thesis by (intro conjI)
qed

end
